theory Spec2Isabelle
  imports Main "HOL-Library.Word" "HOL-Library.Signed_Division" "HOL-Library.Code_Target_Nat"
begin

unbundle bit_operations_syntax

section \<open>Shared types\<close>

text \<open>
  The kernel runs on a 32-bit x86: \<open>char\<close> and \<open>uint8_t\<close> are bytes, \<open>uint16_t\<close> a port
  number, \<open>uint32_t\<close> a 32-bit word.  The C type \<open>int\<close> is modelled by \<open>int\<close>; every
  \<open>int\<close> of console.c and int.c that takes part in arithmetic is a cursor coordinate, a
  cell position or a buffer index, and the bounds under which the theorems are stated
  keep all of them far inside the 32-bit range.  C's \<open>/\<close> and \<open>%\<close> truncate towards zero:
  they are \<open>sdiv\<close> and \<open>smod\<close>.

  Memory is one byte-addressed store; the character grid lives in it at
  \<open>CONSOLE_MEM_BASE\<close>.
\<close>

type_synonym byte = "8 word"
type_synonym addr = nat
type_synonym memory = "addr \<Rightarrow> byte"

text \<open>
  What the code does to the hardware is kept as a trace, oldest event first: port
  writes and reads, the load of the interrupt base register, the stores into the gate
  table (the processor reads that table by itself), the log lines of \<open>lprintf\<close>, the
  calls of the timer callback, and the enabling of interrupt delivery, which no
  function of int.c performs.
\<close>

datatype event =
    Outb "16 word" byte
  | Inb "16 word"
  | Lidt nat
  | Gate_store nat
  | Lprintf string int
  | Call_tickback "32 word"
  | Enable_interrupts

text \<open>Every state of the model carries the trace.\<close>

record hardware =
  io :: "event list"

definition outb :: "16 word \<Rightarrow> byte \<Rightarrow> 'z hardware_scheme \<Rightarrow> 'z hardware_scheme" where
  "outb port val s = s \<lparr> io := io s @ [Outb port val] \<rparr>"

definition lprintf :: "string \<Rightarrow> int \<Rightarrow> 'z hardware_scheme \<Rightarrow> 'z hardware_scheme" where
  "lprintf fmt arg s = s \<lparr> io := io s @ [Lprintf fmt arg] \<rparr>"

definition lidt :: "nat \<Rightarrow> 'z hardware_scheme \<Rightarrow> 'z hardware_scheme" where
  "lidt limit s = s \<lparr> io := io s @ [Lidt limit] \<rparr>"

text \<open>
  The headers of the support library (\<open>p1kern.h\<close>, \<open>x86/video_defines.h\<close>,
  \<open>x86/timer_defines.h\<close>, \<open>x86/interrupt_defines.h\<close>, \<open>x86/keyhelp.h\<close>, \<open>x86/seg.h\<close>,
  \<open>x86/idt.h\<close>) are not among the sources.  The constants they define are parameters of
  the model, collected in one record; no theorem depends on their values.
\<close>

record platform =
  CONSOLE_MEM_BASE :: addr
  FGND_LGRAY :: int
  CRTC_IDX_REG :: "16 word"
  CRTC_DATA_REG :: "16 word"
  CRTC_CURSOR_MSB_IDX :: byte
  CRTC_CURSOR_LSB_IDX :: byte
  INT_CTL_PORT :: "16 word"
  INT_ACK_CURRENT :: byte
  TIMER_RATE :: "32 word"
  TIMER_MODE_IO_PORT :: "16 word"
  TIMER_PERIOD_IO_PORT :: "16 word"
  TIMER_SQUARE_WAVE :: byte
  KEYBOARD_PORT :: "16 word"
  SEGSEL_KERNEL_CS :: "32 word"
  IDT_ENTS :: nat
  asm_timer_handler :: "32 word"
  asm_kbd_handler :: "32 word"

text \<open>The values of the PC the kernel is written for; used for concrete runs only.\<close>

definition pc :: platform where
  "pc = \<lparr> CONSOLE_MEM_BASE = 0xB8000, FGND_LGRAY = 7,
          CRTC_IDX_REG = 0x3D4, CRTC_DATA_REG = 0x3D5,
          CRTC_CURSOR_MSB_IDX = 14, CRTC_CURSOR_LSB_IDX = 15,
          INT_CTL_PORT = 0x20, INT_ACK_CURRENT = 0x20,
          TIMER_RATE = 1193182, TIMER_MODE_IO_PORT = 0x43,
          TIMER_PERIOD_IO_PORT = 0x40, TIMER_SQUARE_WAVE = 0x36,
          KEYBOARD_PORT = 0x60, SEGSEL_KERNEL_CS = 0x10, IDT_ENTS = 256,
          asm_timer_handler = 0x100000, asm_kbd_handler = 0x100010 \<rparr>"

section \<open>console.c\<close>

text \<open>
  Modelled from the spec: the header that defines \<open>CONSOLE_WIDTH\<close> and
  \<open>CONSOLE_HEIGHT\<close> is not among the sources.  The grid has a fixed number of rows and
  columns, and console.c itself fixes the product as \<open>CONSOLE_SZ = 80*25\<close>: 25 rows of
  80 columns.
\<close>

definition CONSOLE_WIDTH :: int where "CONSOLE_WIDTH = 80"
definition CONSOLE_HEIGHT :: int where "CONSOLE_HEIGHT = 25"
definition CONSOLE_SZ :: int where "CONSOLE_SZ = 80 * 25"
definition COLOR_BOUND :: int where "COLOR_BOUND = 0x100"
definition VISIBLE :: int where "VISIBLE = 0"
definition HIDDEN :: int where "HIDDEN = 1"

record cursor_t =
  row :: int
  col :: int

text \<open>
  The globals of console.c (\<open>cursor\<close>, \<open>cursor_hidden\<close>, \<open>cursor_color\<close>), the memory
  the grid is mapped into, and the trace of port writes.
\<close>

record console = hardware +
  cursor :: cursor_t
  cursor_hidden :: int
  cursor_color :: int
  mem :: memory

definition console_init :: "platform \<Rightarrow> memory \<Rightarrow> console" where
  "console_init P m = \<lparr> io = [], cursor = \<lparr> row = 0, col = 0 \<rparr>,
      cursor_hidden = VISIBLE, cursor_color = FGND_LGRAY P, mem = m \<rparr>"

definition set_cursor :: "int \<Rightarrow> int \<Rightarrow> console \<Rightarrow> int \<times> console" where
  "set_cursor r c s =
     (if r < 0 \<or> r \<ge> CONSOLE_HEIGHT \<or> c < 0 \<or> c \<ge> CONSOLE_WIDTH
      then (-1, s)
      else (0, s \<lparr> cursor := \<lparr> row = r, col = c \<rparr> \<rparr>))"

definition get_cursor :: "console \<Rightarrow> int \<times> int" where
  "get_cursor s = (row (cursor s), col (cursor s))"

definition show_cursor :: "platform \<Rightarrow> console \<Rightarrow> console" where
  "show_cursor P s =
     (let pos = col (cursor s) + row (cursor s) * CONSOLE_WIDTH;
          lsb_index = pos AND 0xff;
          msb_index = drop_bit 8 pos AND 0xff
      in outb (CRTC_DATA_REG P) (word_of_int lsb_index)
           (outb (CRTC_IDX_REG P) (CRTC_CURSOR_LSB_IDX P)
              (outb (CRTC_DATA_REG P) (word_of_int msb_index)
                 (outb (CRTC_IDX_REG P) (CRTC_CURSOR_MSB_IDX P) s))))"

definition hide_cursor :: "platform \<Rightarrow> console \<Rightarrow> console" where
  "hide_cursor P s =
     (let pos = CONSOLE_SZ + 1;
          lsb_index = pos AND 0xff;
          msb_index = drop_bit 8 pos AND 0xff;
          s1 = outb (CRTC_DATA_REG P) (word_of_int lsb_index)
                 (outb (CRTC_IDX_REG P) (CRTC_CURSOR_LSB_IDX P)
                    (outb (CRTC_DATA_REG P) (word_of_int msb_index)
                       (outb (CRTC_IDX_REG P) (CRTC_CURSOR_MSB_IDX P) s)))
      in s1 \<lparr> cursor_hidden := HIDDEN \<rparr>)"

definition set_term_color :: "int \<Rightarrow> console \<Rightarrow> int \<times> console" where
  "set_term_color color s =
     (if color \<ge> COLOR_BOUND \<or> color < 0 then (-1, s)
      else (0, s \<lparr> cursor_color := color \<rparr>))"

definition get_term_color :: "console \<Rightarrow> int" where
  "get_term_color s = cursor_color s"

text \<open>
  The address of the character byte of cell \<open>pos\<close>, as \<open>draw_char\<close> and \<open>get_char\<close>
  compute it: \<open>CONSOLE_MEM_BASE + pos * 2\<close>.  The attribute byte is the next one.
\<close>

definition cell_addr :: "platform \<Rightarrow> int \<Rightarrow> addr" where
  "cell_addr P pos = nat (int (CONSOLE_MEM_BASE P) + pos * 2)"

definition draw_char :: "platform \<Rightarrow> int \<Rightarrow> int \<Rightarrow> int \<Rightarrow> int \<Rightarrow> console \<Rightarrow> console" where
  "draw_char P r c ch color s =
     (if r < 0 \<or> r \<ge> CONSOLE_HEIGHT \<or> c < 0 \<or> c \<ge> CONSOLE_WIDTH \<or>
         color \<ge> COLOR_BOUND \<or> color < 0
      then s
      else let pos = r * CONSOLE_WIDTH + c
           in s \<lparr> mem := (mem s)(cell_addr P pos := word_of_int ch,
                                 cell_addr P pos + 1 := word_of_int color) \<rparr>)"

definition get_char :: "platform \<Rightarrow> int \<Rightarrow> int \<Rightarrow> console \<Rightarrow> byte" where
  "get_char P r c s = (let pos = r * CONSOLE_WIDTH + c in mem s (cell_addr P pos))"

text \<open>
  The attribute byte of a cell; console.c has no function that reads it, the theorems
  need one.
\<close>

definition get_attr :: "platform \<Rightarrow> int \<Rightarrow> int \<Rightarrow> console \<Rightarrow> byte" where
  "get_attr P r c s = (let pos = r * CONSOLE_WIDTH + c in mem s (cell_addr P pos + 1))"

text \<open>
  The two loops of \<open>console_scroll\<close> run while \<open>start != end\<close>: a loop entered with
  \<open>start\<close> beyond \<open>end\<close>, or at an odd distance from it in the second loop, would not
  stop.  They are partial functions, \<open>None\<close> standing for a loop that does not return;
  that they do return from the pointers \<open>console_scroll\<close> gives them is proved below.
\<close>

partial_function (option) scroll_copy :: "addr \<Rightarrow> addr \<Rightarrow> addr \<Rightarrow> memory \<Rightarrow> memory option" where
  "scroll_copy head start endp m =
     (if start \<noteq> endp then scroll_copy (head + 1) (start + 1) endp (m(head := m start))
      else Some m)"

partial_function (option) scroll_blank :: "addr \<Rightarrow> addr \<Rightarrow> int \<Rightarrow> memory \<Rightarrow> memory option" where
  "scroll_blank start endp color m =
     (if start \<noteq> endp
      then scroll_blank (start + 2) endp color (m(start := 32, start + 1 := word_of_int color))
      else Some m)"

declare scroll_copy.simps [code]
declare scroll_blank.simps [code]

definition console_scroll :: "platform \<Rightarrow> console \<Rightarrow> console option" where
  "console_scroll P s =
     (let head = CONSOLE_MEM_BASE P;
          start = nat (int (CONSOLE_MEM_BASE P) + CONSOLE_WIDTH * 2);
          endp = nat (int (CONSOLE_MEM_BASE P) + CONSOLE_SZ * 2)
      in case scroll_copy head start endp (mem s) of
           None \<Rightarrow> None
         | Some m1 \<Rightarrow>
             (case scroll_blank (endp - nat (CONSOLE_WIDTH * 2)) endp (cursor_color s) m1 of
                None \<Rightarrow> None
              | Some m2 \<Rightarrow> Some (s \<lparr> mem := m2 \<rparr>)))"

text \<open>
  \<open>putbyte\<close>: the switch on the character (\<open>'\n'\<close> is 10, \<open>'\r'\<close> is 13, \<open>'\b'\<close> is 8),
  then \<open>set_cursor\<close> on the cursor just computed and, unless the cursor is hidden,
  \<open>show_cursor\<close>.  \<open>char\<close> is signed on this target, so the \<open>int\<close> handed to
  \<open>draw_char\<close> and returned is \<open>sint ch\<close>.
\<close>

definition putbyte :: "platform \<Rightarrow> byte \<Rightarrow> console \<Rightarrow> (int \<times> console) option" where
  "putbyte P ch s =
     (let pos = row (cursor s) * CONSOLE_WIDTH + col (cursor s);
          switched =
            (if ch = 10 then
               (let s1 = s \<lparr> cursor := \<lparr> row = row (cursor s) + 1, col = 0 \<rparr> \<rparr>
                in if row (cursor s1) \<ge> CONSOLE_HEIGHT
                   then console_scroll P (s1 \<lparr> cursor := (cursor s1) \<lparr> row := CONSOLE_HEIGHT - 1 \<rparr> \<rparr>)
                   else Some s1)
             else if ch = 13 then
               Some (s \<lparr> cursor := (cursor s) \<lparr> row := 0 \<rparr> \<rparr>)
             else if ch = 8 then
               (let pos1 = pos - 1;
                    pos2 = (if pos1 < 0 then 0 else pos1);
                    s1 = s \<lparr> cursor := \<lparr> row = pos2 sdiv CONSOLE_WIDTH,
                                         col = pos2 smod CONSOLE_WIDTH \<rparr> \<rparr>
                in Some (draw_char P (row (cursor s1)) (col (cursor s1)) 32 (cursor_color s1) s1))
             else
               (let s1 = draw_char P (row (cursor s)) (col (cursor s)) (sint ch) (cursor_color s) s;
                    pos1 = pos + 1;
                    s2 = s1 \<lparr> cursor := \<lparr> row = pos1 sdiv CONSOLE_WIDTH,
                                          col = pos1 smod CONSOLE_WIDTH \<rparr> \<rparr>
                in if row (cursor s2) \<ge> CONSOLE_HEIGHT
                   then console_scroll P (s2 \<lparr> cursor := (cursor s2) \<lparr> row := CONSOLE_HEIGHT - 1 \<rparr> \<rparr>)
                   else Some s2))
      in case switched of
           None \<Rightarrow> None
         | Some s1 \<Rightarrow>
             (let s2 = snd (set_cursor (row (cursor s1)) (col (cursor s1)) s1);
                  s3 = (if cursor_hidden s2 = 0 then show_cursor P s2 else s2)
              in Some (sint ch, s3)))"

text \<open>
  \<open>putbytes\<close>: \<open>p\<close> starts at \<open>s\<close> and is dereferenced and advanced once per round; the
  byte is read from the memory as it is at that moment.  There is no test of \<open>s\<close>; the
  null pointer is address 0.
\<close>

function putbytes_loop :: "platform \<Rightarrow> addr \<Rightarrow> int \<Rightarrow> int \<Rightarrow> console \<Rightarrow> console option" where
  "putbytes_loop P p i len s =
     (if i < len
      then (case putbyte P (mem s p) s of
              None \<Rightarrow> None
            | Some (r, s1) \<Rightarrow> putbytes_loop P (p + 1) (i + 1) len s1)
      else Some s)"
  by pat_completeness auto
termination
  by (relation "measure (\<lambda>(P, p, i, len, s). nat (len - i))") auto

definition putbytes :: "platform \<Rightarrow> addr \<Rightarrow> int \<Rightarrow> console \<Rightarrow> console option" where
  "putbytes P s len st = putbytes_loop P s 0 len st"

section \<open>int.h and int.c\<close>

definition IRQ_TIMER :: "32 word" where "IRQ_TIMER = 0x20"
definition IRQ_KBD :: "32 word" where "IRQ_KBD = 0x21"
definition INT_32 :: "4 word" where "INT_32 = 0xE"
definition TRP_32 :: "4 word" where "TRP_32 = 0xF"
definition MAX_BUF_SZ :: int where "MAX_BUF_SZ = 512"

record PushedRegs =
  edi :: "32 word"
  esi :: "32 word"
  ebp :: "32 word"
  old_esp :: "32 word"
  ebx :: "32 word"
  edx :: "32 word"
  ecx :: "32 word"
  eax :: "32 word"

record Regs =
  regs :: PushedRegs
  irq_no :: "32 word"
  err_code :: "32 word"
  eip :: "32 word"
  cs :: "32 word"
  eflags :: "32 word"
  usr_esp :: "32 word"
  ss :: "32 word"

text \<open>The bit fields of a gate descriptor, each with its width.\<close>

record Gatedp =
  low_0_15 :: "16 word"
  selector :: "16 word"
  padding1 :: "8 word"
  gtype :: "4 word"
  padding2 :: "1 word"
  dpl :: "2 word"
  present :: "1 word"
  high_16_31 :: "16 word"

definition zero_gate :: Gatedp where
  "zero_gate = \<lparr> low_0_15 = 0, selector = 0, padding1 = 0, gtype = 0, padding2 = 0,
                  dpl = 0, present = 0, high_16_31 = 0 \<rparr>"

text \<open>
  \<open>SETGATE\<close> on a table indexed by vector number.  The table has \<open>IDT_ENTS\<close> entries;
  the two vectors the code programs, 0x20 and 0x21, are inside it.
\<close>

definition SETGATE :: "(nat \<Rightarrow> Gatedp) \<Rightarrow> nat \<Rightarrow> 32 word \<Rightarrow> 32 word \<Rightarrow> int \<Rightarrow> (nat \<Rightarrow> Gatedp)" where
  "SETGATE gate num sel handler d =
     gate (num := \<lparr> low_0_15 = ucast (handler AND 0xffff),
                     selector = ucast sel,
                     padding1 = 0,
                     gtype = INT_32,
                     padding2 = 0,
                     dpl = word_of_int d,
                     present = 1,
                     high_16_31 = ucast (drop_bit 16 handler) \<rparr>)"

definition IDT_LIIMIT :: "platform \<Rightarrow> nat" where
  "IDT_LIIMIT P = IDT_ENTS P * (8 - 1)"

text \<open>
  The scancode decoder \<open>process_scancode\<close> and the macros that read its result belong
  to the support library; they are parameters.  The decoder keeps a state of its own
  between calls, of a type \<open>'d\<close> the model leaves open, and returns a \<open>kh_type\<close>, an
  \<open>int\<close>.
\<close>

record 'd keyhelp =
  process_scancode :: "int \<Rightarrow> 'd \<Rightarrow> int \<times> 'd"
  KH_ISMAKE :: "int \<Rightarrow> bool"
  KH_HASDATA :: "int \<Rightarrow> bool"
  KH_GETCHAR :: "int \<Rightarrow> int"

text \<open>
  The globals of int.c.  The timer callback is a function pointer into the
  application: a function of the tick count on the application's state \<open>'a\<close>, or
  \<open>None\<close> for the null pointer.  \<open>buf\<close> is the array of \<open>MAX_BUF_SZ\<close> bytes.
\<close>

record ('a, 'd) kernel = hardware +
  idt :: "nat \<Rightarrow> Gatedp"
  timer_ticks :: "32 word"
  timer_callback :: "(32 word \<Rightarrow> 'a \<Rightarrow> 'a) option"
  buf :: "byte list"
  buf_sz :: int
  head :: int
  tail :: int
  decoder :: 'd
  app :: 'a

definition kernel_init :: "'a \<Rightarrow> 'd \<Rightarrow> ('a, 'd) kernel" where
  "kernel_init a d = \<lparr> io = [], idt = (\<lambda>_. zero_gate), timer_ticks = 0,
      timer_callback = None, buf = replicate (nat MAX_BUF_SZ) 0, buf_sz = 0,
      head = 0, tail = 0, decoder = d, app = a \<rparr>"

definition load_idt :: "platform \<Rightarrow> ('a, 'd) kernel \<Rightarrow> ('a, 'd) kernel" where
  "load_idt P s = lidt (IDT_LIIMIT P) s"

definition int_init :: "platform \<Rightarrow> ('a, 'd) kernel \<Rightarrow> ('a, 'd) kernel" where
  "int_init P s =
     (let s1 = s \<lparr> idt := SETGATE (idt s) (unat IRQ_TIMER) (SEGSEL_KERNEL_CS P)
                              (asm_timer_handler P) 0,
                   io := io s @ [Gate_store (unat IRQ_TIMER)] \<rparr>
      in s1 \<lparr> idt := SETGATE (idt s1) (unat IRQ_KBD) (SEGSEL_KERNEL_CS P)
                         (asm_kbd_handler P) 0,
               io := io s1 @ [Gate_store (unat IRQ_KBD)] \<rparr>)"

definition timer_init :: "platform \<Rightarrow> ('a, 'd) kernel \<Rightarrow> ('a, 'd) kernel" where
  "timer_init P s =
     (let period = TIMER_RATE P div 100
      in outb (TIMER_PERIOD_IO_PORT P) (ucast (drop_bit 8 period AND 0xff))
           (outb (TIMER_PERIOD_IO_PORT P) (ucast (period AND 0xff))
              (outb (TIMER_MODE_IO_PORT P) (TIMER_SQUARE_WAVE P) s)))"

definition timer_handler :: "Regs \<Rightarrow> ('a, 'd) kernel \<Rightarrow> ('a, 'd) kernel" where
  "timer_handler r s =
     (let s1 = s \<lparr> timer_ticks := timer_ticks s + 1 \<rparr>
      in case timer_callback s1 of
           None \<Rightarrow> s1
         | Some f \<Rightarrow> s1 \<lparr> app := f (timer_ticks s1) (app s1),
                          io := io s1 @ [Call_tickback (timer_ticks s1)] \<rparr>)"

definition timer_install ::
    "platform \<Rightarrow> (32 word \<Rightarrow> 'a \<Rightarrow> 'a) option \<Rightarrow> ('a, 'd) kernel \<Rightarrow> ('a, 'd) kernel" where
  "timer_install P tickback s = (timer_init P s) \<lparr> timer_callback := tickback \<rparr>"

definition handler_install ::
    "platform \<Rightarrow> (32 word \<Rightarrow> 'a \<Rightarrow> 'a) option \<Rightarrow> ('a, 'd) kernel \<Rightarrow> int \<times> ('a, 'd) kernel" where
  "handler_install P tickback s =
     (let s1 = load_idt P s;
          s2 = int_init P s1;
          s3 = timer_install P tickback s2
      in (0, s3))"

text \<open>
  The keyboard buffer.  An index outside the array is undefined behaviour in C; the
  model returns \<open>None\<close> there instead of inventing a result.
\<close>

definition writebuf :: "byte \<Rightarrow> ('a, 'd) kernel \<Rightarrow> ('a, 'd) kernel option" where
  "writebuf ch s =
     (if buf_sz s < MAX_BUF_SZ then
        (if 0 \<le> head s \<and> nat (head s) < length (buf s) then
           (let s1 = s \<lparr> buf := (buf s)[nat (head s) := ch], head := head s + 1 \<rparr>;
                s2 = (if head s1 = MAX_BUF_SZ then s1 \<lparr> head := 0 \<rparr> else s1)
            in Some (s2 \<lparr> buf_sz := buf_sz s2 + 1 \<rparr>))
         else None)
      else Some s)"

definition readbuf :: "('a, 'd) kernel \<Rightarrow> (byte \<times> ('a, 'd) kernel) option" where
  "readbuf s =
     (if buf_sz s > 0 then
        (if 0 \<le> tail s \<and> nat (tail s) < length (buf s) then
           (let ch = buf s ! nat (tail s);
                s1 = s \<lparr> tail := tail s + 1 \<rparr>;
                s2 = (if tail s1 = MAX_BUF_SZ then s1 \<lparr> tail := 0 \<rparr> else s1)
            in Some (ch, s2 \<lparr> buf_sz := buf_sz s2 - 1 \<rparr>))
         else None)
      else Some (0, s))"

text \<open>
  \<open>kbd_handler\<close> reads the keyboard port; \<open>inp\<close> is what the ports answer at that
  moment.
\<close>

definition kbd_handler ::
    "platform \<Rightarrow> (16 word \<Rightarrow> byte) \<Rightarrow> Regs \<Rightarrow> ('a, 'd) kernel \<Rightarrow> ('a, 'd) kernel option" where
  "kbd_handler P inp r s =
     writebuf (inp (KEYBOARD_PORT P)) (s \<lparr> io := io s @ [Inb (KEYBOARD_PORT P)] \<rparr>)"

definition int_handler ::
    "platform \<Rightarrow> (16 word \<Rightarrow> byte) \<Rightarrow> Regs \<Rightarrow> ('a, 'd) kernel \<Rightarrow> ('a, 'd) kernel option" where
  "int_handler P inp r s =
     (if irq_no r = IRQ_TIMER then
        Some (outb (INT_CTL_PORT P) (INT_ACK_CURRENT P) (timer_handler r s))
      else if irq_no r = IRQ_KBD then
        (case kbd_handler P inp r s of
           None \<Rightarrow> None
         | Some s1 \<Rightarrow> Some (outb (INT_CTL_PORT P) (INT_ACK_CURRENT P) s1))
      else
        Some (lprintf (''Error: INT/TRAP[%d] with unimplemented handler'' @ [CHR 0x0A])
                (sint (irq_no r)) s))"

definition readchar ::
    "'d keyhelp \<Rightarrow> ('a, 'd) kernel \<Rightarrow> (int \<times> ('a, 'd) kernel) option" where
  "readchar K s =
     (case readbuf s of
        None \<Rightarrow> None
      | Some (b, s1) \<Rightarrow>
          (let ch = uint b;
               (aug, d) = process_scancode K ch (decoder s1);
               s2 = s1 \<lparr> decoder := d \<rparr>
           in if KH_ISMAKE K aug \<and> KH_HASDATA K aug
              then Some (KH_GETCHAR K aug, s2)
              else Some (-1, s2)))"

section \<open>Notions the claims are stated with\<close>

text \<open>
  The cell one step back in row-major order, as the claim about backspace words it:
  the column before, or the last column of the row before, or (0, 0) when the cursor
  is already there.  It is compared below with what \<open>putbyte\<close> computes.
\<close>

definition back_cell :: "console \<Rightarrow> int \<times> int" where
  "back_cell s =
     (if 0 < col (cursor s) then (row (cursor s), col (cursor s) - 1)
      else if 0 < row (cursor s) then (row (cursor s) - 1, CONSOLE_WIDTH - 1)
      else (0, 0))"

text \<open>
  The keyboard buffer as a queue.  \<open>buf_bounds\<close> is the invariant as the claim words it:
  the count between 0 and the capacity, both indices inside the array.  \<open>buf_wf\<close> adds
  what first-in-first-out needs, that \<open>head\<close> is \<open>count\<close> places after \<open>tail\<close> around the
  ring.  \<open>queued\<close> lists the bytes waiting, oldest first.  \<open>pushes\<close> and \<open>pops\<close> repeat
  \<open>writebuf\<close> and \<open>readbuf\<close>.
\<close>

definition buf_bounds :: "('a, 'd) kernel \<Rightarrow> bool" where
  "buf_bounds s \<longleftrightarrow>
     length (buf s) = nat MAX_BUF_SZ \<and>
     0 \<le> buf_sz s \<and> buf_sz s \<le> MAX_BUF_SZ \<and>
     0 \<le> head s \<and> head s < MAX_BUF_SZ \<and>
     0 \<le> tail s \<and> tail s < MAX_BUF_SZ"

definition buf_wf :: "('a, 'd) kernel \<Rightarrow> bool" where
  "buf_wf s \<longleftrightarrow> buf_bounds s \<and> head s = (tail s + buf_sz s) mod MAX_BUF_SZ"

definition queued :: "('a, 'd) kernel \<Rightarrow> byte list" where
  "queued s = map (\<lambda>i. buf s ! nat ((tail s + int i) mod MAX_BUF_SZ)) [0..<nat (buf_sz s)]"

fun pushes :: "byte list \<Rightarrow> ('a, 'd) kernel \<Rightarrow> ('a, 'd) kernel option" where
  "pushes [] s = Some s"
| "pushes (b # bs) s = (case writebuf b s of None \<Rightarrow> None | Some s1 \<Rightarrow> pushes bs s1)"

fun pops :: "nat \<Rightarrow> ('a, 'd) kernel \<Rightarrow> (byte list \<times> ('a, 'd) kernel) option" where
  "pops 0 s = Some ([], s)"
| "pops (Suc n) s =
     (case readbuf s of
        None \<Rightarrow> None
      | Some (b, s1) \<Rightarrow>
          (case pops n s1 of None \<Rightarrow> None | Some (bs, s2) \<Rightarrow> Some (b # bs, s2)))"

text \<open>
  Reading a trace: the events a call has added to it, the port writes and the log
  lines among them.
\<close>

definition is_gate_store :: "event \<Rightarrow> bool" where
  "is_gate_store e = (case e of Gate_store _ \<Rightarrow> True | _ \<Rightarrow> False)"

definition is_outb :: "event \<Rightarrow> bool" where
  "is_outb e = (case e of Outb _ _ \<Rightarrow> True | _ \<Rightarrow> False)"

definition emitted :: "'y hardware_scheme \<Rightarrow> 'z hardware_scheme \<Rightarrow> event list" where
  "emitted s s' = drop (length (io s)) (io s')"

definition port_writes :: "event list \<Rightarrow> event list" where
  "port_writes tr = filter is_outb tr"

definition log_lines :: "event list \<Rightarrow> event list" where
  "log_lines tr = filter (\<lambda>e. case e of Lprintf _ _ \<Rightarrow> True | _ \<Rightarrow> False) tr"

text \<open>
  The order of installation as the claim about \<open>handler_install\<close> words it: the stores
  of the timer and keyboard gates first, then the load of the interrupt base register,
  then port writes only (the timer), and the enabling of interrupts last.
\<close>

definition install_order_claimed :: "event list \<Rightarrow> bool" where
  "install_order_claimed tr \<longleftrightarrow>
     set (takeWhile is_gate_store tr) = {Gate_store (unat IRQ_TIMER), Gate_store (unat IRQ_KBD)} \<and>
     (case dropWhile is_gate_store tr of
        Lidt l # rest \<Rightarrow>
          rest \<noteq> [] \<and> last rest = Enable_interrupts \<and> list_all is_outb (butlast rest)
      | _ \<Rightarrow> False)"

section \<open>Concrete inputs\<close>

text \<open>States and parameters the closed theorems below are evaluated on.\<close>

definition console_at :: "int \<Rightarrow> int \<Rightarrow> console" where
  "console_at r c = (console_init pc (\<lambda>a. of_nat a)) \<lparr> cursor := \<lparr> row = r, col = c \<rparr> \<rparr>"

text \<open>Address 0, the null pointer, holds the byte 65; every other byte is zero.\<close>

definition console_null :: console where
  "console_null = console_init pc ((\<lambda>_. 0)(0 := 65))"

text \<open>
  A register snapshot with a given vector number, a kernel whose callback appends each
  tick count it is called with to the application state, and a decoder that keeps the
  list of the scancodes it has been given and reports the scancodes 1 to 127 as key
  presses carrying themselves as character.
\<close>

definition regs_of :: "32 word \<Rightarrow> Regs" where
  "regs_of n = \<lparr> regs = \<lparr> edi = 0, esi = 0, ebp = 0, old_esp = 0, ebx = 0, edx = 0, ecx = 0,
                           eax = 0 \<rparr>,
                 irq_no = n, err_code = 0, eip = 0, cs = 0, eflags = 0, usr_esp = 0, ss = 0 \<rparr>"

definition kernel_ticking :: "(32 word list, unit) kernel" where
  "kernel_ticking = (kernel_init [] ()) \<lparr> timer_callback := Some (\<lambda>n a. a @ [n]) \<rparr>"

definition kh_recorder :: "int list keyhelp" where
  "kh_recorder = \<lparr> process_scancode = (\<lambda>ch d. (ch, d @ [ch])),
                    KH_ISMAKE = (\<lambda>k. 0 < k \<and> k < 0x80),
                    KH_HASDATA = (\<lambda>k. 0 < k),
                    KH_GETCHAR = (\<lambda>k. k) \<rparr>"

section \<open>Auxiliary facts about the console\<close>

lemma sdiv_nonneg: "0 \<le> a \<Longrightarrow> 0 < b \<Longrightarrow> (a::int) sdiv b = a div b"
  by (cases "a = 0") (simp_all add: signed_divide_int_def)

lemma smod_nonneg: "0 \<le> a \<Longrightarrow> 0 < b \<Longrightarrow> (a::int) smod b = a mod b"
  by (cases "a = 0") (simp_all add: signed_modulo_int_def)

lemma scroll_copy_returns:
  "endp = start + n \<Longrightarrow> h < start \<Longrightarrow>
   scroll_copy h start endp m =
     Some (\<lambda>a. if h \<le> a \<and> a < h + n then m (a + (start - h)) else m a)"
proof (induction n arbitrary: h start m)
  case 0
  then show ?case by (subst scroll_copy.simps) (auto simp: fun_eq_iff)
next
  case (Suc n)
  have ne: "start \<noteq> endp" using Suc.prems by simp
  have step: "scroll_copy h start endp m =
      scroll_copy (h + 1) (start + 1) endp (m(h := m start))"
    by (subst scroll_copy.simps) (simp add: ne)
  have ih: "scroll_copy (h + 1) (start + 1) endp (m(h := m start)) =
      Some (\<lambda>a. if h + 1 \<le> a \<and> a < h + 1 + n
                 then (m(h := m start)) (a + (start + 1 - (h + 1)))
                 else (m(h := m start)) a)"
    using Suc.prems by (intro Suc.IH) simp_all
  show ?case
    unfolding step ih using Suc.prems by (auto simp: fun_eq_iff)
qed

lemma scroll_blank_returns:
  "endp = start + 2 * k \<Longrightarrow>
   scroll_blank start endp color m =
     Some (\<lambda>a. if start \<le> a \<and> a < start + 2 * k
                then (if even (a - start) then 32 else word_of_int color) else m a)"
proof (induction k arbitrary: start m)
  case 0
  then show ?case by (subst scroll_blank.simps) (auto simp: fun_eq_iff)
next
  case (Suc k)
  have ne: "start \<noteq> endp" using Suc.prems by simp
  have step: "scroll_blank start endp color m =
      scroll_blank (start + 2) endp color (m(start := 32, start + 1 := word_of_int color))"
    by (subst scroll_blank.simps) (simp add: ne)
  have ih: "scroll_blank (start + 2) endp color (m(start := 32, start + 1 := word_of_int color)) =
      Some (\<lambda>a. if start + 2 \<le> a \<and> a < start + 2 + 2 * k
                 then (if even (a - (start + 2)) then 32 else word_of_int color)
                 else (m(start := 32, start + 1 := word_of_int color)) a)"
    using Suc.prems by (intro Suc.IH) simp
  show ?case
    unfolding step ih by (auto simp: fun_eq_iff)
qed


lemma show_cursor_fields:
  "mem (show_cursor P s) = mem s" "cursor (show_cursor P s) = cursor s"
  "cursor_color (show_cursor P s) = cursor_color s"
  "cursor_hidden (show_cursor P s) = cursor_hidden s"
  by (simp_all add: show_cursor_def outb_def Let_def)

lemma console_scroll_returns:
  "console_scroll P s =
     Some (s \<lparr> mem := (\<lambda>a. if CONSOLE_MEM_BASE P + 3840 \<le> a \<and> a < CONSOLE_MEM_BASE P + 4000
                           then (if even (a - (CONSOLE_MEM_BASE P + 3840)) then 32
                                 else word_of_int (cursor_color s))
                           else if CONSOLE_MEM_BASE P \<le> a \<and> a < CONSOLE_MEM_BASE P + 3840
                           then mem s (a + 160) else mem s a) \<rparr>)"
proof -
  let ?B = "CONSOLE_MEM_BASE P"
  have a1: "nat (int ?B + CONSOLE_WIDTH * 2) = ?B + 160"
    by (simp add: CONSOLE_WIDTH_def)
  have a2: "nat (int ?B + CONSOLE_SZ * 2) = ?B + 4000"
    by (simp add: CONSOLE_SZ_def)
  have a3: "?B + 4000 - nat (CONSOLE_WIDTH * 2) = ?B + 3840"
    by (simp add: CONSOLE_WIDTH_def)
  have c: "scroll_copy ?B (?B + 160) (?B + 4000) (mem s) =
      Some (\<lambda>a. if ?B \<le> a \<and> a < ?B + 3840 then mem s (a + (?B + 160 - ?B)) else mem s a)"
    by (rule scroll_copy_returns) simp_all
  have b: "scroll_blank (?B + 3840) (?B + 4000) col m =
      Some (\<lambda>a. if ?B + 3840 \<le> a \<and> a < ?B + 3840 + 2 * 80
                 then (if even (a - (?B + 3840)) then 32 else word_of_int col) else m a)" for col m
    by (rule scroll_blank_returns) simp
  show ?thesis
    unfolding console_scroll_def Let_def a1 a2 a3 c option.case b
    by (simp add: fun_eq_iff)
qed

lemma cell_addr_nonneg: "0 \<le> pos \<Longrightarrow> cell_addr P pos = CONSOLE_MEM_BASE P + 2 * nat pos"
  by (simp add: cell_addr_def nat_add_distrib nat_mult_distrib)

lemma putbyte_newline_state:
  assumes "row (cursor s) = CONSOLE_HEIGHT - 1"
  shows "putbyte P 10 s = Some (10,
    (if cursor_hidden s = 0 then show_cursor P else id)
      (s \<lparr> mem := mem (the (console_scroll P s)),
           cursor := \<lparr> row = CONSOLE_HEIGHT - 1, col = 0 \<rparr> \<rparr>))"
  using assms
  by (simp add: putbyte_def Let_def console_scroll_returns set_cursor_def
        CONSOLE_HEIGHT_def CONSOLE_WIDTH_def cong: if_cong)


lemma grid_row_up:
  assumes "1 \<le> r" "r < CONSOLE_HEIGHT" "0 \<le> c" "c < CONSOLE_WIDTH"
  shows "cell_addr P (r * CONSOLE_WIDTH + c) = cell_addr P ((r - 1) * CONSOLE_WIDTH + c) + 160"
    and "cell_addr P ((r - 1) * CONSOLE_WIDTH + c) + 1 < CONSOLE_MEM_BASE P + 3840"
    and "CONSOLE_MEM_BASE P \<le> cell_addr P ((r - 1) * CONSOLE_WIDTH + c)"
  using assms by (simp_all add: cell_addr_def CONSOLE_HEIGHT_def CONSOLE_WIDTH_def)

lemma grid_last_row:
  assumes "0 \<le> c" "c < CONSOLE_WIDTH"
  shows "cell_addr P ((CONSOLE_HEIGHT - 1) * CONSOLE_WIDTH + c) = CONSOLE_MEM_BASE P + 3840 + 2 * nat c"
    and "2 * nat c + 1 < 160"
  using assms by (simp_all add: cell_addr_def CONSOLE_HEIGHT_def CONSOLE_WIDTH_def nat_add_distrib nat_mult_distrib)

lemma grid_pos_inj:
  fixes r c r' c' :: int
  assumes "0 \<le> c" "c < 80" "0 \<le> c'" "c' < 80" "r * 80 + c = r' * 80 + c'"
  shows "r = r' \<and> c = c'"
proof -
  have "(r * 80 + c) mod 80 = (r' * 80 + c') mod 80"
    using assms(5) by simp
  then have c: "c = c'"
    using assms(1-4) by simp
  with assms(5) show ?thesis by simp
qed

lemma addr_parity: "(b::nat) + 2 * x \<noteq> b + 2 * y + 1" "(b::nat) + 2 * x + 1 \<noteq> b + 2 * y"
  by presburger+

lemma cell_addr_inj:
  assumes "0 \<le> r" "0 \<le> c" "c < CONSOLE_WIDTH" "0 \<le> r'" "0 \<le> c'" "c' < CONSOLE_WIDTH"
    and "(r, c) \<noteq> (r', c')"
  shows "cell_addr P (r * CONSOLE_WIDTH + c) \<noteq> cell_addr P (r' * CONSOLE_WIDTH + c')"
    and "cell_addr P (r * CONSOLE_WIDTH + c) \<noteq> cell_addr P (r' * CONSOLE_WIDTH + c') + 1"
    and "cell_addr P (r * CONSOLE_WIDTH + c) + 1 \<noteq> cell_addr P (r' * CONSOLE_WIDTH + c')"
proof -
  have ne: "r * 80 + c \<noteq> r' * 80 + c'"
    using assms grid_pos_inj [of c c' r r'] by (auto simp: CONSOLE_WIDTH_def)
  have p: "0 \<le> r * 80 + c" "0 \<le> r' * 80 + c'"
    using assms by simp_all
  have e: "cell_addr P (r * CONSOLE_WIDTH + c) = CONSOLE_MEM_BASE P + 2 * nat (r * 80 + c)"
     "cell_addr P (r' * CONSOLE_WIDTH + c') = CONSOLE_MEM_BASE P + 2 * nat (r' * 80 + c')"
    using p by (simp_all add: cell_addr_nonneg CONSOLE_WIDTH_def)
  show "cell_addr P (r * CONSOLE_WIDTH + c) \<noteq> cell_addr P (r' * CONSOLE_WIDTH + c')"
    unfolding e using ne p by simp
  show "cell_addr P (r * CONSOLE_WIDTH + c) \<noteq> cell_addr P (r' * CONSOLE_WIDTH + c') + 1"
    unfolding e by (rule addr_parity)
  show "cell_addr P (r * CONSOLE_WIDTH + c) + 1 \<noteq> cell_addr P (r' * CONSOLE_WIDTH + c')"
    unfolding e by (rule addr_parity)
qed

lemma grid_div_mod:
  assumes "0 \<le> r" "0 \<le> c" "c < CONSOLE_WIDTH"
  shows "(r * CONSOLE_WIDTH + c) sdiv CONSOLE_WIDTH = r"
    and "(r * CONSOLE_WIDTH + c) smod CONSOLE_WIDTH = c"
  using assms by (simp_all add: sdiv_nonneg smod_nonneg CONSOLE_WIDTH_def)

lemma putbyte_backspace_state:
  assumes "0 \<le> row (cursor s)" "row (cursor s) < CONSOLE_HEIGHT"
    and "0 \<le> col (cursor s)" "col (cursor s) < CONSOLE_WIDTH"
    and "0 \<le> cursor_color s" "cursor_color s < COLOR_BOUND"
    and "back_cell s = (r', c')"
  shows "putbyte P 8 s = Some (8,
    (if cursor_hidden s = 0 then show_cursor P else id)
      (s \<lparr> mem := (mem s)(cell_addr P (r' * CONSOLE_WIDTH + c') := 32,
                          cell_addr P (r' * CONSOLE_WIDTH + c') + 1 := word_of_int (cursor_color s)),
           cursor := \<lparr> row = r', col = c' \<rparr> \<rparr>))"
proof -
  let ?pos = "row (cursor s) * CONSOLE_WIDTH + col (cursor s)"
  let ?pos2 = "if ?pos - 1 < 0 then 0 else ?pos - 1"
  have b: "0 \<le> r'" "r' < CONSOLE_HEIGHT" "0 \<le> c'" "c' < CONSOLE_WIDTH"
    using assms by (auto simp: back_cell_def CONSOLE_WIDTH_def split: if_splits)
  have pos2: "?pos2 = r' * CONSOLE_WIDTH + c'"
    using assms by (auto simp: back_cell_def CONSOLE_WIDTH_def split: if_splits)
  have d: "?pos2 sdiv CONSOLE_WIDTH = r'" "?pos2 smod CONSOLE_WIDTH = c'"
    unfolding pos2 using b by (simp_all add: grid_div_mod)
  show ?thesis
    unfolding putbyte_def Let_def d
    using b assms(5,6)
    by (simp add: draw_char_def set_cursor_def Let_def)
qed

lemma putbyte_cr_state:
  "putbyte P 13 s = Some (13,
     (if cursor_hidden s = 0 then show_cursor P else id)
       (s \<lparr> cursor := \<lparr> row = 0, col = col (cursor s) \<rparr> \<rparr>))"
  by (cases "cursor s") (simp add: putbyte_def Let_def set_cursor_def CONSOLE_HEIGHT_def)

lemma putbytes_no_length:
  "len \<le> 0 \<Longrightarrow> putbytes P p len st = Some st"
  by (simp add: putbytes_def)

lemma putbyte_A: "putbyte pc 65 console_null =
   Some (65, show_cursor pc (console_null \<lparr> mem := (mem console_null)
            (cell_addr pc 0 := 65, cell_addr pc 0 + 1 := 7), cursor := \<lparr> row = 0, col = 1 \<rparr> \<rparr>))"
  by (simp add: putbyte_def Let_def draw_char_def set_cursor_def console_null_def console_init_def
      pc_def CONSOLE_WIDTH_def CONSOLE_HEIGHT_def COLOR_BOUND_def VISIBLE_def
      signed_divide_int_def signed_modulo_int_def)

section \<open>Auxiliary facts about the keyboard buffer\<close>

lemma wrap_512:
  fixes x :: int
  assumes "0 \<le> x" "x < 1024"
  shows "x mod 512 = (if x < 512 then x else x - 512)"
proof (cases "x < 512")
  case True
  with assms show ?thesis by simp
next
  case False
  have "x mod 512 = (x - 512) mod 512"
    by simp
  also have "\<dots> = x - 512"
    by (rule mod_pos_pos_trivial) (use False assms in simp_all)
  finally show ?thesis using False by simp
qed

lemma length_queued: "length (queued s) = nat (buf_sz s)"
  by (simp add: queued_def)

lemma kernel_init_wf: "buf_wf (kernel_init a d)" "queued (kernel_init a d) = []"
  by (simp_all add: buf_wf_def buf_bounds_def kernel_init_def MAX_BUF_SZ_def queued_def)

lemma writebuf_full: "MAX_BUF_SZ \<le> buf_sz s \<Longrightarrow> writebuf ch s = Some s"
  by (simp add: writebuf_def)

lemma writebuf_bounds:
  assumes "buf_bounds s"
  shows "\<exists>s'. writebuf ch s = Some s' \<and> buf_bounds s'"
  using assms by (auto simp: writebuf_def buf_bounds_def Let_def MAX_BUF_SZ_def)

lemma readbuf_bounds:
  assumes "buf_bounds s"
  shows "\<exists>b s'. readbuf s = Some (b, s') \<and> buf_bounds s'"
  using assms by (auto simp: readbuf_def buf_bounds_def Let_def MAX_BUF_SZ_def)

lemma writebuf_room:
  assumes wf: "buf_wf s" and room: "buf_sz s < MAX_BUF_SZ"
  shows "\<exists>s'. writebuf ch s = Some s' \<and> buf_wf s' \<and> queued s' = queued s @ [ch] \<and>
              buf_sz s' = buf_sz s + 1"
proof -
  let ?n = "buf_sz s" and ?t = "tail s" and ?h = "head s"
  have b: "length (buf s) = 512" "0 \<le> ?n" "?n < 512" "0 \<le> ?h" "?h < 512" "0 \<le> ?t" "?t < 512"
    and h: "?h = (?t + ?n) mod 512"
    using wf room by (simp_all add: buf_wf_def buf_bounds_def MAX_BUF_SZ_def)
  define s' where "s' = s \<lparr> buf := (buf s)[nat ?h := ch],
      head := (if ?h + 1 = 512 then 0 else ?h + 1), buf_sz := ?n + 1 \<rparr>"
  have run: "writebuf ch s = Some s'"
    using b by (simp add: writebuf_def Let_def MAX_BUF_SZ_def s'_def)
  have h': "head s' = (tail s' + buf_sz s') mod 512"
    using b h by (simp add: s'_def wrap_512 split: if_splits)
  have wf': "buf_wf s'"
    using b h' by (simp add: buf_wf_def buf_bounds_def MAX_BUF_SZ_def) (simp add: s'_def)
  have old: "(buf s)[nat ?h := ch] ! nat ((?t + int i) mod 512) = buf s ! nat ((?t + int i) mod 512)"
    if "i < nat ?n" for i
  proof -
    have "(?t + int i) mod 512 \<noteq> ?h"
      using that b unfolding h by (auto simp: wrap_512 split: if_splits)
    moreover have "0 \<le> (?t + int i) mod 512"
      by simp
    ultimately have "nat ((?t + int i) mod 512) \<noteq> nat ?h"
      using b by simp
    then show ?thesis by simp
  qed
  have new: "(buf s)[nat ?h := ch] ! nat ((?t + int (nat ?n)) mod 512) = ch"
    using b h by simp
  have up: "[0..<nat (?n + 1)] = [0..<nat ?n] @ [nat ?n]"
    using b by (simp add: nat_add_distrib)
  have q: "queued s' = queued s @ [ch]"
    unfolding queued_def using old new
    by (simp add: s'_def MAX_BUF_SZ_def up)
  show ?thesis
    using run wf' q by (auto simp: s'_def)
qed

lemma readbuf_some:
  assumes wf: "buf_wf s" and some: "0 < buf_sz s"
  shows "\<exists>b s'. readbuf s = Some (b, s') \<and> buf_wf s' \<and> queued s = b # queued s' \<and>
              buf_sz s' = buf_sz s - 1"
proof -
  let ?n = "buf_sz s" and ?t = "tail s" and ?h = "head s"
  have b: "length (buf s) = 512" "0 < ?n" "?n \<le> 512" "0 \<le> ?h" "?h < 512" "0 \<le> ?t" "?t < 512"
    and h: "?h = (?t + ?n) mod 512"
    using wf some by (simp_all add: buf_wf_def buf_bounds_def MAX_BUF_SZ_def)
  define s' where "s' = s \<lparr> tail := (if ?t + 1 = 512 then 0 else ?t + 1), buf_sz := ?n - 1 \<rparr>"
  have run: "readbuf s = Some (buf s ! nat ?t, s')"
    using b by (simp add: readbuf_def Let_def MAX_BUF_SZ_def s'_def)
  have t': "tail s' = (?t + 1) mod 512"
    using b by (simp add: s'_def wrap_512)
  have h': "head s' = (tail s' + buf_sz s') mod 512"
    unfolding t' using h by (simp add: s'_def mod_add_left_eq)
  have wf': "buf_wf s'"
    using b h' by (simp add: buf_wf_def buf_bounds_def MAX_BUF_SZ_def) (simp add: s'_def)
  have shift: "(tail s' + int i) mod 512 = (?t + int (Suc i)) mod 512" for i
    unfolding t' by (simp add: mod_add_left_eq add.assoc)
  have up: "[0..<nat ?n] = 0 # map Suc [0..<nat (?n - 1)]"
    using b by (metis Suc_nat_eq_nat_zadd1 add.commute diff_add_cancel diff_ge_0_iff_ge
        int_one_le_iff_zero_less map_Suc_upt upt_conv_Cons zero_less_Suc)
  have q: "queued s = buf s ! nat ?t # queued s'"
    using b unfolding queued_def up
    by (simp add: MAX_BUF_SZ_def shift o_def) (simp add: s'_def)
  show ?thesis
    using run wf' q by (auto simp: s'_def)
qed

lemma writebuf_wf:
  assumes "buf_wf s"
  shows "\<exists>s'. writebuf ch s = Some s' \<and> buf_wf s' \<and>
              queued s' = queued s @ take (nat MAX_BUF_SZ - length (queued s)) [ch]"
proof (cases "buf_sz s < MAX_BUF_SZ")
  case True
  then have "0 < nat MAX_BUF_SZ - length (queued s)"
    using assms by (simp add: length_queued buf_wf_def buf_bounds_def)
  then have "take (nat MAX_BUF_SZ - length (queued s)) [ch] = [ch]"
    by (cases "nat MAX_BUF_SZ - length (queued s)") simp_all
  with writebuf_room [OF assms True, of ch] show ?thesis by auto
next
  case False
  then have "nat MAX_BUF_SZ - length (queued s) = 0"
    by (simp add: length_queued)
  with False assms show ?thesis by (simp add: writebuf_full)
qed

lemma pushes_wf:
  "buf_wf s \<Longrightarrow>
   \<exists>s'. pushes bs s = Some s' \<and> buf_wf s' \<and>
        queued s' = queued s @ take (nat MAX_BUF_SZ - length (queued s)) bs"
proof (induction bs arbitrary: s)
  case Nil
  then show ?case by simp
next
  case (Cons b bs)
  from writebuf_wf [OF Cons.prems, of b] obtain s1 where
    w: "writebuf b s = Some s1" and wf1: "buf_wf s1"
    and q1: "queued s1 = queued s @ take (nat MAX_BUF_SZ - length (queued s)) [b]"
    by blast
  from Cons.IH [OF wf1] obtain s' where
    p: "pushes bs s1 = Some s'" and wf': "buf_wf s'"
    and q': "queued s' = queued s1 @ take (nat MAX_BUF_SZ - length (queued s1)) bs"
    by blast
  have "queued s' = queued s @ take (nat MAX_BUF_SZ - length (queued s)) (b # bs)"
  proof (cases "nat MAX_BUF_SZ - length (queued s)")
    case 0
    then show ?thesis unfolding q' q1 by simp
  next
    case (Suc k)
    then have "nat MAX_BUF_SZ - Suc (length (queued s)) = k"
      by arith
    with Suc show ?thesis unfolding q' q1 by simp
  qed
  with w p wf' show ?case by simp
qed

lemma pops_wf:
  "buf_wf s \<Longrightarrow> n \<le> length (queued s) \<Longrightarrow>
   \<exists>s'. pops n s = Some (take n (queued s), s') \<and> buf_wf s' \<and>
        queued s' = drop n (queued s)"
proof (induction n arbitrary: s)
  case 0
  then show ?case by simp
next
  case (Suc n)
  then have "0 < buf_sz s"
    by (simp add: length_queued)
  from readbuf_some [OF Suc.prems(1) this] obtain b s1 where
    r: "readbuf s = Some (b, s1)" and wf1: "buf_wf s1" and q: "queued s = b # queued s1"
    by blast
  have "n \<le> length (queued s1)"
    using Suc.prems(2) q by simp
  from Suc.IH [OF wf1 this] obtain s' where
    p: "pops n s1 = Some (take n (queued s1), s')" and wf': "buf_wf s'"
    and q': "queued s' = drop n (queued s1)"
    by blast
  show ?case
    using r p wf' q' q by simp
qed

lemma readbuf_empty: "buf_sz s \<le> 0 \<Longrightarrow> readbuf s = Some (0, s)"
  by (simp add: readbuf_def)

section \<open>Auxiliary facts about the interrupt code\<close>

lemma gate_address:
  "push_bit 16 (ucast (high_16_31 (SETGATE g n sel h d n)) :: 32 word) OR
     ucast (low_0_15 (SETGATE g n sel h d n)) = h"
proof -
  have m: "(0xffff :: 32 word) = mask 16"
    by (simp add: mask_eq_exp_minus_1)
  show ?thesis
    unfolding SETGATE_def m
    by (rule bit_word_eqI) (auto simp: bit_simps)
qed

lemma handler_install_state:
  "handler_install P tickback s = (0,
     s \<lparr> io := io s @
            [Lidt (IDT_LIIMIT P), Gate_store (unat IRQ_TIMER), Gate_store (unat IRQ_KBD),
             Outb (TIMER_MODE_IO_PORT P) (TIMER_SQUARE_WAVE P),
             Outb (TIMER_PERIOD_IO_PORT P) (ucast (TIMER_RATE P div 100 AND 0xff)),
             Outb (TIMER_PERIOD_IO_PORT P) (ucast (drop_bit 8 (TIMER_RATE P div 100) AND 0xff))],
          idt := SETGATE (SETGATE (idt s) (unat IRQ_TIMER) (SEGSEL_KERNEL_CS P)
                            (asm_timer_handler P) 0)
                   (unat IRQ_KBD) (SEGSEL_KERNEL_CS P) (asm_kbd_handler P) 0,
          timer_callback := tickback \<rparr>)"
  by (simp add: handler_install_def load_idt_def lidt_def int_init_def timer_install_def
      timer_init_def outb_def Let_def)

lemma SETGATE_present:
  "present (SETGATE g n sel h d v) = (if v = n then 1 else present (g v))"
  by (simp add: SETGATE_def)

lemma timer_handler_state:
  "timer_handler r s =
     (case timer_callback s of
        None \<Rightarrow> s \<lparr> timer_ticks := timer_ticks s + 1 \<rparr>
      | Some f \<Rightarrow> s \<lparr> timer_ticks := timer_ticks s + 1,
                       app := f (timer_ticks s + 1) (app s),
                       io := io s @ [Call_tickback (timer_ticks s + 1)] \<rparr>)"
  by (simp add: timer_handler_def Let_def split: option.splits)

lemma unat_tick:
  fixes w :: "32 word"
  shows "unat (w + 1) = (unat w + 1) mod 2 ^ 32"
    and "w \<noteq> - 1 \<Longrightarrow> unat (w + 1) = unat w + 1"
proof -
  show "unat (w + 1) = (unat w + 1) mod 2 ^ 32"
    by (simp add: unat_word_ariths)
  show "unat (w + 1) = unat w + 1" if "w \<noteq> - 1"
  proof -
    have "1 + w \<noteq> 0"
      using that by (metis add_eq_0_iff)
    then show ?thesis
      by (simp add: unatSuc add.commute)
  qed
qed

lemma int_handler_timer:
  "irq_no r = IRQ_TIMER \<Longrightarrow>
   int_handler P inp r s = Some (outb (INT_CTL_PORT P) (INT_ACK_CURRENT P) (timer_handler r s))"
  by (simp add: int_handler_def)

lemma int_handler_kbd:
  assumes "irq_no r = IRQ_KBD" "buf_bounds s"
  shows "\<exists>s'. int_handler P inp r s = Some s' \<and>
           io s' = io s @ [Inb (KEYBOARD_PORT P), Outb (INT_CTL_PORT P) (INT_ACK_CURRENT P)] \<and>
           timer_ticks s' = timer_ticks s \<and> buf_bounds s'"
proof -
  let ?s1 = "s \<lparr> io := io s @ [Inb (KEYBOARD_PORT P)] \<rparr>"
  have ne: "IRQ_KBD \<noteq> IRQ_TIMER"
    by (simp add: IRQ_KBD_def IRQ_TIMER_def)
  have "buf_bounds ?s1"
    using assms(2) by (simp add: buf_bounds_def)
  from writebuf_bounds [OF this, of "inp (KEYBOARD_PORT P)"] obtain s2 where
    w: "writebuf (inp (KEYBOARD_PORT P)) ?s1 = Some s2" and b: "buf_bounds s2"
    by blast
  have k: "io s2 = io ?s1" "timer_ticks s2 = timer_ticks s"
    using w by (auto simp: writebuf_def Let_def split: if_splits)
  have "int_handler P inp r s = Some (outb (INT_CTL_PORT P) (INT_ACK_CURRENT P) s2)"
    using assms(1) ne w by (simp add: int_handler_def kbd_handler_def)
  moreover have "buf_bounds (outb (INT_CTL_PORT P) (INT_ACK_CURRENT P) s2)"
    using b by (simp add: buf_bounds_def outb_def)
  ultimately show ?thesis
    using k by (simp add: outb_def)
qed

lemma int_handler_other:
  "irq_no r \<noteq> IRQ_TIMER \<Longrightarrow> irq_no r \<noteq> IRQ_KBD \<Longrightarrow>
   int_handler P inp r s =
     Some (s \<lparr> io := io s @ [Lprintf (''Error: INT/TRAP[%d] with unimplemented handler'' @ [CHR 0x0A])
                               (sint (irq_no r))] \<rparr>)"
  by (simp add: int_handler_def lprintf_def)

lemma writebuf_ticks: "writebuf ch s = Some s' \<Longrightarrow> timer_ticks s' = timer_ticks s"
  by (auto simp: writebuf_def Let_def split: if_splits)

lemma readbuf_ticks: "readbuf s = Some (b, s') \<Longrightarrow> timer_ticks s' = timer_ticks s"
  by (auto simp: readbuf_def Let_def split: if_splits)

lemma int_handler_keeps_ticks:
  assumes "irq_no r \<noteq> IRQ_TIMER" "int_handler P inp r s = Some s'"
  shows "timer_ticks s' = timer_ticks s"
proof (cases "irq_no r = IRQ_KBD")
  case True
  with assms obtain s1 where
    w: "writebuf (inp (KEYBOARD_PORT P)) (s \<lparr> io := io s @ [Inb (KEYBOARD_PORT P)] \<rparr>) = Some s1"
    and e: "s' = outb (INT_CTL_PORT P) (INT_ACK_CURRENT P) s1"
    by (auto simp: int_handler_def kbd_handler_def split: option.splits)
  from writebuf_ticks [OF w] e show ?thesis
    by (simp add: outb_def)
next
  case False
  with assms show ?thesis
    by (auto simp: int_handler_other)
qed

lemma readchar_ticks:
  assumes "readchar K s = Some (x, s')"
  shows "timer_ticks s' = timer_ticks s"
proof -
  from assms obtain b s1 where r: "readbuf s = Some (b, s1)"
    by (auto simp: readchar_def split: option.splits)
  with assms have "timer_ticks s' = timer_ticks s1"
    by (auto simp: readchar_def Let_def split: prod.splits if_splits)
  with readbuf_ticks [OF r] show ?thesis by simp
qed

lemma readchar_empty:
  assumes "buf_sz s \<le> 0"
  shows "readchar K s =
     Some (if KH_ISMAKE K (fst (process_scancode K 0 (decoder s))) \<and>
              KH_HASDATA K (fst (process_scancode K 0 (decoder s)))
           then KH_GETCHAR K (fst (process_scancode K 0 (decoder s))) else - 1,
           s \<lparr> decoder := snd (process_scancode K 0 (decoder s)) \<rparr>)"
  using assms by (simp add: readchar_def readbuf_empty Let_def split: prod.splits)

section \<open>Cursor positioning\<close>

text \<open>
  C7.  For every (row, col) inside the grid, \<open>set_cursor\<close> returns 0 and \<open>get_cursor\<close>
  then reads exactly (row, col); for every (row, col) with a coordinate outside the
  grid, \<open>set_cursor\<close> returns a negative result and \<open>get_cursor\<close> reads what it read
  before the call.  In both cases nothing but the cursor can have changed.
\<close>

theorem set_cursor_get_cursor:
  "(0 \<le> r \<and> r < CONSOLE_HEIGHT \<and> 0 \<le> c \<and> c < CONSOLE_WIDTH \<longrightarrow>
      fst (set_cursor r c s) = 0 \<and> get_cursor (snd (set_cursor r c s)) = (r, c)) \<and>
   (\<not> (0 \<le> r \<and> r < CONSOLE_HEIGHT \<and> 0 \<le> c \<and> c < CONSOLE_WIDTH) \<longrightarrow>
      fst (set_cursor r c s) < 0 \<and>
      get_cursor (snd (set_cursor r c s)) = get_cursor s \<and>
      snd (set_cursor r c s) = s)"
  by (auto simp: set_cursor_def get_cursor_def)

theorem set_cursor_get_cursor_witness:
  "fst (set_cursor 3 5 (console_init pc (\<lambda>_. 0))) = 0 \<and>
   get_cursor (snd (set_cursor 3 5 (console_init pc (\<lambda>_. 0)))) = (3, 5) \<and>
   fst (set_cursor 25 5 (console_init pc (\<lambda>_. 0))) < 0 \<and>
   get_cursor (snd (set_cursor 25 5 (console_init pc (\<lambda>_. 0)))) = (0, 0)"
  using set_cursor_get_cursor [of 3 5 "console_init pc (\<lambda>_. 0)"]
        set_cursor_get_cursor [of 25 5 "console_init pc (\<lambda>_. 0)"]
  by (simp add: CONSOLE_HEIGHT_def CONSOLE_WIDTH_def console_init_def get_cursor_def)

section \<open>Scrolling\<close>

text \<open>
  C6.  With the cursor on the last row, \<open>putbyte\<close> of \<open>'\n'\<close> returns, and the grid it
  leaves is the grid after one \<open>console_scroll\<close> of the grid before: every cell of rows
  1 to height-1 is found one row up (what was in row 0 is gone), every cell of the last
  row is a blank with the current colour as its attribute, nothing outside the grid is
  written, the colour and the hidden flag are kept, and the cursor is at column 0 of
  the last row.
\<close>

theorem putbyte_newline_on_last_row:
  assumes "row (cursor s) = CONSOLE_HEIGHT - 1"
  shows "\<exists>s'. putbyte P 10 s = Some (10, s') \<and>
           Some (mem s') = map_option mem (console_scroll P s) \<and>
           (\<forall>r c. 1 \<le> r \<and> r < CONSOLE_HEIGHT \<and> 0 \<le> c \<and> c < CONSOLE_WIDTH \<longrightarrow>
                  get_char P (r - 1) c s' = get_char P r c s \<and>
                  get_attr P (r - 1) c s' = get_attr P r c s) \<and>
           (\<forall>c. 0 \<le> c \<and> c < CONSOLE_WIDTH \<longrightarrow>
                  get_char P (CONSOLE_HEIGHT - 1) c s' = 32 \<and>
                  get_attr P (CONSOLE_HEIGHT - 1) c s' = word_of_int (cursor_color s)) \<and>
           (\<forall>a. a < CONSOLE_MEM_BASE P \<or> CONSOLE_MEM_BASE P + 4000 \<le> a \<longrightarrow> mem s' a = mem s a) \<and>
           get_cursor s' = (CONSOLE_HEIGHT - 1, 0) \<and>
           cursor_color s' = cursor_color s \<and> cursor_hidden s' = cursor_hidden s"
proof -
  let ?B = "CONSOLE_MEM_BASE P"
  let ?M = "\<lambda>a. if ?B + 3840 \<le> a \<and> a < ?B + 4000
                 then (if even (a - (?B + 3840)) then 32 else word_of_int (cursor_color s))
                 else if ?B \<le> a \<and> a < ?B + 3840 then mem s (a + 160) else mem s a"
  define s' where "s' = (if cursor_hidden s = 0 then show_cursor P else id)
      (s \<lparr> mem := mem (the (console_scroll P s)),
           cursor := \<lparr> row = CONSOLE_HEIGHT - 1, col = 0 \<rparr> \<rparr>)"
  have run: "putbyte P 10 s = Some (10, s')"
    unfolding s'_def by (rule putbyte_newline_state [OF assms])
  have m: "mem s' = ?M"
    by (simp add: s'_def show_cursor_fields console_scroll_returns)
  have one: "Some (mem s') = map_option mem (console_scroll P s)"
    by (simp add: m console_scroll_returns)
  have up: "get_char P (r - 1) c s' = get_char P r c s \<and> get_attr P (r - 1) c s' = get_attr P r c s"
    if "1 \<le> r" "r < CONSOLE_HEIGHT" "0 \<le> c" "c < CONSOLE_WIDTH" for r c
    using grid_row_up [OF that, where P = P]
    by (simp add: get_char_def get_attr_def m Let_def)
  have last: "get_char P (CONSOLE_HEIGHT - 1) c s' = 32 \<and>
              get_attr P (CONSOLE_HEIGHT - 1) c s' = word_of_int (cursor_color s)"
    if "0 \<le> c" "c < CONSOLE_WIDTH" for c
    using grid_last_row(1) [OF that, where P = P] grid_last_row(2) [OF that]
    by (simp add: get_char_def get_attr_def m Let_def)
  have out: "mem s' a = mem s a" if "a < ?B \<or> ?B + 4000 \<le> a" for a
    using that by (auto simp: m)
  have rest: "get_cursor s' = (CONSOLE_HEIGHT - 1, 0)" "cursor_color s' = cursor_color s"
      "cursor_hidden s' = cursor_hidden s"
    by (simp_all add: s'_def get_cursor_def show_cursor_fields)
  from run one up last out rest show ?thesis by blast
qed

theorem putbyte_newline_on_last_row_witness:
  "row (cursor (console_at 24 5)) = CONSOLE_HEIGHT - 1 \<and>
   (\<exists>s'. putbyte pc 10 (console_at 24 5) = Some (10, s') \<and>
         get_cursor s' = (CONSOLE_HEIGHT - 1, 0) \<and>
         get_char pc (CONSOLE_HEIGHT - 1) 0 s' = 32 \<and>
         get_char pc (1 - 1) 0 s' = get_char pc 1 0 (console_at 24 5))"
proof -
  have h: "row (cursor (console_at 24 5)) = CONSOLE_HEIGHT - 1"
    by (simp add: console_at_def CONSOLE_HEIGHT_def)
  have b: "(0::int) \<le> 0 \<and> 0 < CONSOLE_WIDTH" "(1::int) \<le> 1 \<and> 1 < CONSOLE_HEIGHT"
    by (simp_all add: CONSOLE_WIDTH_def CONSOLE_HEIGHT_def)
  from putbyte_newline_on_last_row [OF h, of pc] b h show ?thesis
    by blast
qed

section \<open>Backspace\<close>

text \<open>
  C10.  For every cursor inside the grid (and a colour the console can have, 0 to 255),
  \<open>putbyte\<close> of \<open>'\b'\<close> returns with the cursor on \<open>back_cell\<close>: one cell back in
  row-major order, from column 0 to the last column of the row before, staying at
  (0, 0).  The cell under the new cursor holds a blank with the current colour as its
  attribute; no other cell and no other byte of memory changes.
\<close>

theorem putbyte_backspace:
  assumes "0 \<le> row (cursor s)" "row (cursor s) < CONSOLE_HEIGHT"
    and "0 \<le> col (cursor s)" "col (cursor s) < CONSOLE_WIDTH"
    and "0 \<le> cursor_color s" "cursor_color s < COLOR_BOUND"
  shows "\<exists>s'. putbyte P 8 s = Some (8, s') \<and>
           get_cursor s' = back_cell s \<and>
           get_char P (fst (back_cell s)) (snd (back_cell s)) s' = 32 \<and>
           get_attr P (fst (back_cell s)) (snd (back_cell s)) s' = word_of_int (cursor_color s) \<and>
           uint (get_attr P (fst (back_cell s)) (snd (back_cell s)) s') = cursor_color s \<and>
           (\<forall>r c. 0 \<le> r \<and> r < CONSOLE_HEIGHT \<and> 0 \<le> c \<and> c < CONSOLE_WIDTH \<and>
                  (r, c) \<noteq> back_cell s \<longrightarrow>
                  get_char P r c s' = get_char P r c s \<and> get_attr P r c s' = get_attr P r c s) \<and>
           (\<forall>a. a \<noteq> cell_addr P (fst (back_cell s) * CONSOLE_WIDTH + snd (back_cell s)) \<and>
                a \<noteq> cell_addr P (fst (back_cell s) * CONSOLE_WIDTH + snd (back_cell s)) + 1 \<longrightarrow>
                mem s' a = mem s a) \<and>
           cursor_color s' = cursor_color s \<and> cursor_hidden s' = cursor_hidden s"
proof -
  obtain r' c' where bc: "back_cell s = (r', c')"
    by (cases "back_cell s")
  let ?A = "cell_addr P (r' * CONSOLE_WIDTH + c')"
  define s' where "s' = (if cursor_hidden s = 0 then show_cursor P else id)
      (s \<lparr> mem := (mem s)(?A := 32, ?A + 1 := word_of_int (cursor_color s)),
           cursor := \<lparr> row = r', col = c' \<rparr> \<rparr>)"
  have run: "putbyte P 8 s = Some (8, s')"
    unfolding s'_def by (rule putbyte_backspace_state [OF assms bc])
  have b: "0 \<le> r'" "r' < CONSOLE_HEIGHT" "0 \<le> c'" "c' < CONSOLE_WIDTH"
    using assms bc by (auto simp: back_cell_def CONSOLE_WIDTH_def split: if_splits)
  have m: "mem s' = (mem s)(?A := 32, ?A + 1 := word_of_int (cursor_color s))"
    by (simp add: s'_def show_cursor_fields)
  have cur: "get_cursor s' = (r', c')"
    by (simp add: s'_def get_cursor_def show_cursor_fields)
  have ch: "get_char P r' c' s' = 32"
    by (simp add: get_char_def m)
  have at: "get_attr P r' c' s' = word_of_int (cursor_color s)"
    by (simp add: get_attr_def m)
  have at_int: "uint (get_attr P r' c' s') = cursor_color s"
    using assms(5,6) by (simp add: at uint_word_of_int_eq take_bit_int_eq_self COLOR_BOUND_def)
  have others: "get_char P r c s' = get_char P r c s \<and> get_attr P r c s' = get_attr P r c s"
    if "0 \<le> r" "r < CONSOLE_HEIGHT" "0 \<le> c" "c < CONSOLE_WIDTH" "(r, c) \<noteq> (r', c')" for r c
    using cell_addr_inj [OF that(1,3,4) b(1,3,4) that(5), of P]
    by (simp add: get_char_def get_attr_def m)
  have frame: "mem s' a = mem s a" if "a \<noteq> ?A" "a \<noteq> ?A + 1" for a
    using that by (simp add: m)
  have rest: "cursor_color s' = cursor_color s" "cursor_hidden s' = cursor_hidden s"
    by (simp_all add: s'_def show_cursor_fields)
  show ?thesis
    unfolding bc fst_conv snd_conv
    using run cur ch at at_int others frame rest by blast
qed

theorem putbyte_backspace_witness:
  "\<exists>s'. putbyte pc 8 (console_at 3 0) = Some (8, s') \<and> get_cursor s' = (2, 79) \<and>
        get_char pc 2 79 s' = 32 \<and> get_attr pc 2 79 s' = 7 \<and>
        get_char pc 3 0 s' = get_char pc 3 0 (console_at 3 0)"
proof -
  have h: "0 \<le> row (cursor (console_at 3 0))" "row (cursor (console_at 3 0)) < CONSOLE_HEIGHT"
      "0 \<le> col (cursor (console_at 3 0))" "col (cursor (console_at 3 0)) < CONSOLE_WIDTH"
      "0 \<le> cursor_color (console_at 3 0)" "cursor_color (console_at 3 0) < COLOR_BOUND"
    by (simp_all add: console_at_def console_init_def pc_def CONSOLE_HEIGHT_def
        CONSOLE_WIDTH_def COLOR_BOUND_def)
  have bc: "back_cell (console_at 3 0) = (2, 79)"
    by (simp add: back_cell_def console_at_def CONSOLE_WIDTH_def)
  have col: "cursor_color (console_at 3 0) = 7"
    by (simp add: console_at_def console_init_def pc_def)
  have other: "(0::int) \<le> 3 \<and> 3 < CONSOLE_HEIGHT \<and> (0::int) \<le> 0 \<and> 0 < CONSOLE_WIDTH \<and>
      ((3::int), (0::int)) \<noteq> (2, 79)"
    by (simp add: CONSOLE_HEIGHT_def CONSOLE_WIDTH_def)
  from putbyte_backspace [OF h, of pc] other show ?thesis
    unfolding bc fst_conv snd_conv col by auto
qed

section \<open>Carriage return\<close>

text \<open>
  C1.  The claim is that \<open>'\r'\<close> moves the cursor to column 0 of the row it is on.  The
  \<open>'\r'\<close> case of \<open>putbyte\<close> assigns \<open>cursor.row = 0\<close> and leaves \<open>cursor.col\<close> alone: from
  row 3, column 5 the cursor goes to row 0, column 5, not to row 3, column 0.  No cell
  of the grid is written.
\<close>

theorem putbyte_carriage_return_goes_to_row_0:
  "map_option (\<lambda>(r, s'). (r, get_cursor s', mem s' = mem (console_at 3 5)))
     (putbyte pc 13 (console_at 3 5)) = Some (13, (0, 5), True)"
  by (simp add: putbyte_cr_state get_cursor_def console_at_def show_cursor_fields)

section \<open>Strings\<close>

text \<open>
  C3.  The claim is that \<open>putbytes\<close> with a null \<open>s\<close> does nothing.  \<open>putbytes\<close> tests
  \<open>len\<close> only: with \<open>s\<close> null and \<open>len = 1\<close> it reads the byte at address 0 and prints
  it.  On a console at (0, 0) with an empty trace, whose cell (0, 0) holds 0, and with
  the byte 65 at address 0, the call leaves the cursor at (0, 1), the character 65 in
  cell (0, 0), and four writes to the cursor registers in the trace.  (With \<open>len\<close> not
  positive the call does nothing: that is \<open>putbytes_no_length\<close>.)
\<close>

theorem putbytes_null_pointer_writes:
  "get_cursor console_null = (0, 0) \<and> get_char pc 0 0 console_null = 0 \<and>
   io console_null = [] \<and> mem console_null 0 = 65 \<and>
   map_option (\<lambda>s'. (get_cursor s', get_char pc 0 0 s', io s'))
     (putbytes pc 0 1 console_null) =
   Some ((0, 1), 65, [Outb 0x3D4 14, Outb 0x3D5 0, Outb 0x3D4 15, Outb 0x3D5 1])"
proof -
  have before: "get_cursor console_null = (0, 0)" "get_char pc 0 0 console_null = 0"
      "io console_null = []" "mem console_null 0 = 65"
    by (simp_all add: console_null_def console_init_def get_cursor_def get_char_def
        cell_addr_def pc_def)
  have rd: "putbyte pc (mem console_null 0) console_null = putbyte pc 65 console_null"
    by (simp add: before)
  have run: "putbytes pc 0 1 console_null =
     Some (show_cursor pc (console_null \<lparr> mem := (mem console_null)
            (cell_addr pc 0 := 65, cell_addr pc 0 + 1 := 7), cursor := \<lparr> row = 0, col = 1 \<rparr> \<rparr>))"
    unfolding putbytes_def
    by (subst putbytes_loop.simps) (simp add: rd putbyte_A)
  show ?thesis
    unfolding run using before
    by (simp add: get_cursor_def get_char_def show_cursor_fields show_cursor_def outb_def Let_def
        console_null_def console_init_def pc_def CONSOLE_WIDTH_def)
qed

section \<open>The keyboard buffer\<close>

text \<open>
  C5.  The buffer of capacity 512.  \<open>writebuf\<close> and \<open>readbuf\<close> return and keep
  \<open>buf_bounds\<close>: the count stays between 0 and 512 and \<open>head\<close> and \<open>tail\<close> stay inside
  the array, wrapping from 511 to 0.  A \<open>writebuf\<close> on a full buffer changes nothing: the
  count stays at 512 and the byte is dropped.  On a well-formed buffer \<open>writebuf\<close>
  appends its byte to the queue when there is room, \<open>readbuf\<close> takes the oldest byte off
  it (and returns 0, changing nothing, when it is empty), and after pushing any bytes
  \<open>bs\<close> the queue is the old queue followed by as many bytes of \<open>bs\<close> as there was room
  for; popping that many bytes returns exactly this queue, in order, and empties the
  buffer.
\<close>

theorem kbd_buffer_fifo:
  "(buf_bounds s \<longrightarrow>
      (\<exists>s'. writebuf ch s = Some s' \<and> buf_bounds s') \<and>
      (\<exists>b s'. readbuf s = Some (b, s') \<and> buf_bounds s')) \<and>
   (buf_sz s = MAX_BUF_SZ \<longrightarrow> writebuf ch s = Some s) \<and>
   (buf_wf s \<longrightarrow>
      (\<exists>s'. writebuf ch s = Some s' \<and> buf_wf s' \<and>
            queued s' = (if buf_sz s < MAX_BUF_SZ then queued s @ [ch] else queued s)) \<and>
      (\<exists>b s'. readbuf s = Some (b, s') \<and> buf_wf s' \<and>
            (if 0 < buf_sz s then queued s = b # queued s' else b = 0 \<and> s' = s)) \<and>
      (\<exists>s1 s2. pushes bs s = Some s1 \<and> buf_wf s1 \<and>
            queued s1 = queued s @ take (nat MAX_BUF_SZ - length (queued s)) bs \<and>
            buf_sz s1 = int (length (queued s1)) \<and>
            pops (length (queued s1)) s1 = Some (queued s1, s2) \<and>
            buf_wf s2 \<and> buf_sz s2 = 0))"
proof (intro conjI impI)
  assume "buf_bounds s"
  then show "\<exists>s'. writebuf ch s = Some s' \<and> buf_bounds s'"
    by (rule writebuf_bounds)
  from \<open>buf_bounds s\<close> show "\<exists>b s'. readbuf s = Some (b, s') \<and> buf_bounds s'"
    by (rule readbuf_bounds)
next
  assume "buf_sz s = MAX_BUF_SZ"
  then show "writebuf ch s = Some s"
    by (simp add: writebuf_full)
next
  assume wf: "buf_wf s"
  show "\<exists>s'. writebuf ch s = Some s' \<and> buf_wf s' \<and>
            queued s' = (if buf_sz s < MAX_BUF_SZ then queued s @ [ch] else queued s)"
  proof (cases "buf_sz s < MAX_BUF_SZ")
    case True
    with writebuf_room [OF wf True, of ch] show ?thesis by auto
  next
    case False
    with wf show ?thesis by (simp add: writebuf_full)
  qed
  show "\<exists>b s'. readbuf s = Some (b, s') \<and> buf_wf s' \<and>
            (if 0 < buf_sz s then queued s = b # queued s' else b = 0 \<and> s' = s)"
  proof (cases "0 < buf_sz s")
    case True
    with readbuf_some [OF wf True] show ?thesis by auto
  next
    case False
    with wf show ?thesis by (simp add: readbuf_empty)
  qed
  from pushes_wf [OF wf, of bs] obtain s1 where
    p: "pushes bs s = Some s1" and wf1: "buf_wf s1"
    and q1: "queued s1 = queued s @ take (nat MAX_BUF_SZ - length (queued s)) bs"
    by blast
  have n1: "buf_sz s1 = int (length (queued s1))"
    using wf1 by (simp add: length_queued buf_wf_def buf_bounds_def)
  from pops_wf [OF wf1, of "length (queued s1)"] obtain s2 where
    o: "pops (length (queued s1)) s1 = Some (queued s1, s2)" and wf2: "buf_wf s2"
    and q2: "queued s2 = []"
    by auto
  have n2: "buf_sz s2 = 0"
    using wf2 q2 length_queued [of s2] by (simp add: buf_wf_def buf_bounds_def)
  show "\<exists>s1 s2. pushes bs s = Some s1 \<and> buf_wf s1 \<and>
            queued s1 = queued s @ take (nat MAX_BUF_SZ - length (queued s)) bs \<and>
            buf_sz s1 = int (length (queued s1)) \<and>
            pops (length (queued s1)) s1 = Some (queued s1, s2) \<and>
            buf_wf s2 \<and> buf_sz s2 = 0"
    using p wf1 q1 n1 o wf2 n2 by blast
qed

theorem kbd_buffer_fifo_witness:
  "buf_bounds (kernel_init () ()) \<and> buf_wf (kernel_init () ()) \<and>
   (\<exists>s1 s2. pushes [1, 2, 3] (kernel_init () ()) = Some s1 \<and>
      queued s1 = [1, 2, 3] \<and> buf_sz s1 = 3 \<and>
      pops 3 s1 = Some ([1, 2, 3], s2) \<and> buf_sz s2 = 0)"
proof -
  have wf: "buf_wf (kernel_init () ())"
    by (rule kernel_init_wf)
  then have bb: "buf_bounds (kernel_init () ())"
    by (simp add: buf_wf_def)
  from kbd_buffer_fifo [of "kernel_init () ()" 0 "[1, 2, 3]"] wf obtain s1 s2 where
    p: "pushes [1, 2, 3] (kernel_init () ()) = Some s1"
    and q: "queued s1 = queued (kernel_init () ()) @
              take (nat MAX_BUF_SZ - length (queued (kernel_init () ()))) [1, 2, 3]"
    and n: "buf_sz s1 = int (length (queued s1))"
    and o: "pops (length (queued s1)) s1 = Some (queued s1, s2)" and z: "buf_sz s2 = 0"
    by blast
  have q': "queued s1 = [1, 2, 3]"
    using q by (simp add: kernel_init_wf MAX_BUF_SZ_def)
  have len: "length (queued s1) = 3"
    by (simp add: q')
  have n': "buf_sz s1 = 3"
    using n by (simp add: len)
  note o' = o [unfolded len, unfolded q']
  show ?thesis
    using wf bb p q' n' o' z by blast
qed

section \<open>Installation\<close>

text \<open>
  C4.  The claim is that \<open>handler_install\<close> programs the gates, then loads the table,
  then arms the timer, then enables interrupts.  The trace of \<open>handler_install\<close> on the
  initial kernel is not of that shape: the load comes first and nothing enables
  interrupts.
\<close>

theorem handler_install_not_in_claimed_order:
  "\<not> install_order_claimed
       (emitted (kernel_init () () :: (unit, unit) kernel)
          (snd (handler_install pc None (kernel_init () ()))))"
  by (simp add: handler_install_state emitted_def install_order_claimed_def is_gate_store_def
      kernel_init_def)

text \<open>
  C4, as the code has it (its comment lists the same three steps).  \<open>handler_install\<close>
  returns 0 and adds to the trace, in this order: the load of the interrupt base
  register, the store of the timer gate, the store of the keyboard gate, and the three
  port writes that arm the timer (mode, low byte and high byte of the period
  \<open>TIMER_RATE / 100\<close>).  Nothing it adds to the trace enables interrupts.  The
  callback is stored.  The two gates are marked present
  and every other gate keeps its present bit, so from a table with no present gate,
  as the table is at startup, exactly the timer and keyboard gates are present; the
  two halves of each gate's offset put together are the address of its handler.
\<close>

theorem handler_install_sequence:
  "fst (handler_install P tickback s) = 0 \<and>
   emitted s (snd (handler_install P tickback s)) =
     [Lidt (IDT_LIIMIT P), Gate_store (unat IRQ_TIMER), Gate_store (unat IRQ_KBD),
      Outb (TIMER_MODE_IO_PORT P) (TIMER_SQUARE_WAVE P),
      Outb (TIMER_PERIOD_IO_PORT P) (ucast (TIMER_RATE P div 100 AND 0xff)),
      Outb (TIMER_PERIOD_IO_PORT P) (ucast (drop_bit 8 (TIMER_RATE P div 100) AND 0xff))] \<and>
   io (snd (handler_install P tickback s)) = io s @ emitted s (snd (handler_install P tickback s)) \<and>
   Enable_interrupts \<notin> set (emitted s (snd (handler_install P tickback s))) \<and>
   timer_callback (snd (handler_install P tickback s)) = tickback \<and>
   (\<forall>v. present (idt (snd (handler_install P tickback s)) v) =
          (if v = unat IRQ_TIMER \<or> v = unat IRQ_KBD then 1 else present (idt s v))) \<and>
   ((\<forall>v. present (idt s v) = 0) \<longrightarrow>
      (\<forall>v. present (idt (snd (handler_install P tickback s)) v) = 1 \<longleftrightarrow>
             v = unat IRQ_TIMER \<or> v = unat IRQ_KBD)) \<and>
   push_bit 16 (ucast (high_16_31 (idt (snd (handler_install P tickback s)) (unat IRQ_TIMER))) :: 32 word)
     OR ucast (low_0_15 (idt (snd (handler_install P tickback s)) (unat IRQ_TIMER)))
     = asm_timer_handler P \<and>
   push_bit 16 (ucast (high_16_31 (idt (snd (handler_install P tickback s)) (unat IRQ_KBD))) :: 32 word)
     OR ucast (low_0_15 (idt (snd (handler_install P tickback s)) (unat IRQ_KBD)))
     = asm_kbd_handler P"
proof -
  let ?s' = "snd (handler_install P tickback s)"
  have ne: "unat IRQ_TIMER \<noteq> unat IRQ_KBD"
    by (simp add: IRQ_TIMER_def IRQ_KBD_def)
  have i: "idt ?s' = SETGATE (SETGATE (idt s) (unat IRQ_TIMER) (SEGSEL_KERNEL_CS P)
                            (asm_timer_handler P) 0)
                   (unat IRQ_KBD) (SEGSEL_KERNEL_CS P) (asm_kbd_handler P) 0"
    by (simp add: handler_install_state)
  have t: "idt ?s' (unat IRQ_TIMER) =
      SETGATE (idt s) (unat IRQ_TIMER) (SEGSEL_KERNEL_CS P) (asm_timer_handler P) 0 (unat IRQ_TIMER)"
    unfolding i using ne by (simp add: SETGATE_def)
  have p: "present (idt ?s' v) = (if v = unat IRQ_TIMER \<or> v = unat IRQ_KBD then 1 else present (idt s v))"
    for v
    unfolding i by (simp add: SETGATE_present)
  have a1: "push_bit 16 (ucast (high_16_31 (idt ?s' (unat IRQ_TIMER))) :: 32 word)
     OR ucast (low_0_15 (idt ?s' (unat IRQ_TIMER))) = asm_timer_handler P"
    unfolding t by (rule gate_address)
  have a2: "push_bit 16 (ucast (high_16_31 (idt ?s' (unat IRQ_KBD))) :: 32 word)
     OR ucast (low_0_15 (idt ?s' (unat IRQ_KBD))) = asm_kbd_handler P"
    unfolding i by (rule gate_address)
  have rest: "fst (handler_install P tickback s) = 0"
    "emitted s ?s' =
     [Lidt (IDT_LIIMIT P), Gate_store (unat IRQ_TIMER), Gate_store (unat IRQ_KBD),
      Outb (TIMER_MODE_IO_PORT P) (TIMER_SQUARE_WAVE P),
      Outb (TIMER_PERIOD_IO_PORT P) (ucast (TIMER_RATE P div 100 AND 0xff)),
      Outb (TIMER_PERIOD_IO_PORT P) (ucast (drop_bit 8 (TIMER_RATE P div 100) AND 0xff))]"
    "io ?s' = io s @ emitted s ?s'"
    "Enable_interrupts \<notin> set (emitted s ?s')"
    "timer_callback ?s' = tickback"
    by (simp_all add: handler_install_state emitted_def)
  show ?thesis
    using rest p a1 a2 by simp
qed

theorem handler_install_sequence_witness:
  "(\<forall>v. present (idt (kernel_init () () :: (unit, unit) kernel) v) = 0) \<and>
   io (snd (handler_install pc None (kernel_init () ()))) =
     [Lidt 1792, Gate_store 32, Gate_store 33, Outb 0x43 0x36, Outb 0x40 0x9B, Outb 0x40 0x2E] \<and>
   (\<forall>v. present (idt (snd (handler_install pc None (kernel_init () ()))) v) = 1 \<longleftrightarrow>
          v = 32 \<or> v = 33)"
proof -
  have z: "\<forall>v. present (idt (kernel_init () () :: (unit, unit) kernel) v) = 0"
    by (simp add: kernel_init_def zero_gate_def)
  have e: "io (kernel_init () () :: (unit, unit) kernel) = []"
    by (simp add: kernel_init_def)
  have n: "unat IRQ_TIMER = 32" "unat IRQ_KBD = 33"
    by (simp_all add: IRQ_TIMER_def IRQ_KBD_def)
  have v: "IDT_LIIMIT pc = 1792" "TIMER_MODE_IO_PORT pc = 0x43" "TIMER_SQUARE_WAVE pc = 0x36"
    "TIMER_PERIOD_IO_PORT pc = 0x40" "(ucast (TIMER_RATE pc div 100 AND 0xff) :: byte) = 0x9B"
    "(ucast (drop_bit 8 (TIMER_RATE pc div 100) AND 0xff) :: byte) = 0x2E"
    by (simp_all add: IDT_LIIMIT_def pc_def)
  from handler_install_sequence [of pc None "kernel_init () () :: (unit, unit) kernel"] z
  show ?thesis
    unfolding n v e by simp
qed

section \<open>The timer\<close>

text \<open>
  C8.  The claim is that the tick counter only ever grows.  It is a 32-bit counter:
  at \<open>0xFFFFFFFF\<close> a timer interrupt takes it to 0, which is not greater, and the
  callback is called with 0.
\<close>

theorem timer_ticks_wrap_to_zero:
  "timer_ticks (timer_handler (regs_of 0x20) (kernel_ticking \<lparr> timer_ticks := 0xFFFFFFFF \<rparr>)) = 0 \<and>
   \<not> timer_ticks (kernel_ticking \<lparr> timer_ticks := 0xFFFFFFFF \<rparr>)
       < timer_ticks (timer_handler (regs_of 0x20) (kernel_ticking \<lparr> timer_ticks := 0xFFFFFFFF \<rparr>)) \<and>
   app (timer_handler (regs_of 0x20) (kernel_ticking \<lparr> timer_ticks := 0xFFFFFFFF \<rparr>)) = [0]"
  by (simp add: timer_handler_state kernel_ticking_def kernel_init_def)

text \<open>
  C8, as the code has it.  \<open>timer_handler\<close> adds exactly one to the tick counter, modulo
  \<open>2^32\<close>: below \<open>0xFFFFFFFF\<close> the counter grows by one.  If a callback is registered it
  is then called once, with the counter's value after the increment; with no callback
  nothing else happens.  The dispatcher runs \<open>timer_handler\<close> once for the timer
  vector.  Nothing else writes the counter: not the dispatcher on any other vector, not
  \<open>handler_install\<close>, not \<open>readchar\<close>.
\<close>

theorem timer_tick:
  "timer_ticks (timer_handler r s) = timer_ticks s + 1 \<and>
   unat (timer_ticks (timer_handler r s)) = (unat (timer_ticks s) + 1) mod 2 ^ 32 \<and>
   (timer_ticks s \<noteq> - 1 \<longrightarrow>
      unat (timer_ticks (timer_handler r s)) = unat (timer_ticks s) + 1 \<and>
      timer_ticks s < timer_ticks (timer_handler r s)) \<and>
   (case timer_callback s of
      None \<Rightarrow> app (timer_handler r s) = app s \<and> emitted s (timer_handler r s) = []
    | Some f \<Rightarrow> app (timer_handler r s) = f (timer_ticks s + 1) (app s) \<and>
               emitted s (timer_handler r s) = [Call_tickback (timer_ticks s + 1)]) \<and>
   (irq_no r = IRQ_TIMER \<longrightarrow>
      int_handler P inp r s =
        Some (outb (INT_CTL_PORT P) (INT_ACK_CURRENT P) (timer_handler r s))) \<and>
   (irq_no r \<noteq> IRQ_TIMER \<longrightarrow>
      (\<forall>s'. int_handler P inp r s = Some s' \<longrightarrow> timer_ticks s' = timer_ticks s)) \<and>
   timer_ticks (snd (handler_install P tickback s)) = timer_ticks s \<and>
   (\<forall>x s'. readchar K s = Some (x, s') \<longrightarrow> timer_ticks s' = timer_ticks s)"
proof -
  have t: "timer_ticks (timer_handler r s) = timer_ticks s + 1"
    by (simp add: timer_handler_state split: option.splits)
  have lt: "timer_ticks s < timer_ticks s + 1" if "timer_ticks s \<noteq> - 1"
    using that unat_tick(2) [OF that] by (simp add: word_less_nat_alt)
  have cb: "case timer_callback s of
      None \<Rightarrow> app (timer_handler r s) = app s \<and> emitted s (timer_handler r s) = []
    | Some f \<Rightarrow> app (timer_handler r s) = f (timer_ticks s + 1) (app s) \<and>
               emitted s (timer_handler r s) = [Call_tickback (timer_ticks s + 1)]"
    by (simp add: timer_handler_state emitted_def split: option.splits)
  have hi: "timer_ticks (snd (handler_install P tickback s)) = timer_ticks s"
    by (simp add: handler_install_state)
  show ?thesis
    unfolding t
    using unat_tick [of "timer_ticks s"] lt cb int_handler_timer [of r P inp s]
      int_handler_keeps_ticks [of r P inp s] hi readchar_ticks [of K s]
    by blast
qed

theorem timer_tick_witness:
  "timer_ticks kernel_ticking \<noteq> - 1 \<and> irq_no (regs_of 0x20) = IRQ_TIMER \<and>
   timer_ticks (timer_handler (regs_of 0x20) kernel_ticking) = 1 \<and>
   app (timer_handler (regs_of 0x20) kernel_ticking) = [1] \<and>
   emitted kernel_ticking (timer_handler (regs_of 0x20) kernel_ticking) = [Call_tickback 1] \<and>
   int_handler pc (\<lambda>_. 0) (regs_of 0x20) kernel_ticking =
     Some (outb 0x20 0x20 (timer_handler (regs_of 0x20) kernel_ticking))"
proof -
  have h: "timer_ticks kernel_ticking \<noteq> - 1" "irq_no (regs_of 0x20) = IRQ_TIMER"
    by (simp_all add: kernel_ticking_def kernel_init_def regs_of_def IRQ_TIMER_def)
  have v: "timer_ticks kernel_ticking = 0" "app kernel_ticking = []"
      "timer_callback kernel_ticking = Some (\<lambda>n a. a @ [n])"
      "INT_CTL_PORT pc = 0x20" "INT_ACK_CURRENT pc = 0x20"
    by (simp_all add: kernel_ticking_def kernel_init_def pc_def)
  from timer_tick [of "regs_of 0x20" kernel_ticking pc "\<lambda>_. 0"] h
  show ?thesis
    unfolding v by simp
qed

section \<open>The dispatcher\<close>

text \<open>
  C9.  For a vector that is neither the timer's nor the keyboard's, \<open>int_handler\<close> adds
  one log line to the trace and nothing else: no port write, so no acknowledgment,
  and the tick counter, the buffer, \<open>head\<close>, \<open>tail\<close> and the count are what they were
  (the whole state but the trace is).  For the timer vector and for the keyboard vector
  the only port write it adds is one acknowledgment to the interrupt controller.  (On
  the keyboard vector the buffer indices must be inside the array, as \<open>buf_bounds\<close>
  says; they are from startup on, by \<open>writebuf_bounds\<close> and \<open>readbuf_bounds\<close>.)
\<close>

theorem int_handler_dispatch:
  "(irq_no r \<noteq> IRQ_TIMER \<and> irq_no r \<noteq> IRQ_KBD \<longrightarrow>
      (\<exists>s'. int_handler P inp r s = Some s' \<and>
            emitted s s' = [Lprintf (''Error: INT/TRAP[%d] with unimplemented handler'' @ [CHR 0x0A])
                              (sint (irq_no r))] \<and>
            length (log_lines (emitted s s')) = 1 \<and> port_writes (emitted s s') = [] \<and>
            Outb (INT_CTL_PORT P) (INT_ACK_CURRENT P) \<notin> set (emitted s s') \<and>
            timer_ticks s' = timer_ticks s \<and> buf s' = buf s \<and> head s' = head s \<and>
            tail s' = tail s \<and> buf_sz s' = buf_sz s \<and> s' = s \<lparr> io := io s' \<rparr>)) \<and>
   (irq_no r = IRQ_TIMER \<longrightarrow>
      (\<exists>s'. int_handler P inp r s = Some s' \<and>
            emitted s s' =
              (case timer_callback s of None \<Rightarrow> []
               | Some f \<Rightarrow> [Call_tickback (timer_ticks s + 1)]) @
              [Outb (INT_CTL_PORT P) (INT_ACK_CURRENT P)] \<and>
            port_writes (emitted s s') = [Outb (INT_CTL_PORT P) (INT_ACK_CURRENT P)])) \<and>
   (irq_no r = IRQ_KBD \<and> buf_bounds s \<longrightarrow>
      (\<exists>s'. int_handler P inp r s = Some s' \<and>
            emitted s s' = [Inb (KEYBOARD_PORT P), Outb (INT_CTL_PORT P) (INT_ACK_CURRENT P)] \<and>
            port_writes (emitted s s') = [Outb (INT_CTL_PORT P) (INT_ACK_CURRENT P)]))"
proof (intro conjI impI)
  assume "irq_no r \<noteq> IRQ_TIMER \<and> irq_no r \<noteq> IRQ_KBD"
  then have "int_handler P inp r s =
     Some (s \<lparr> io := io s @ [Lprintf (''Error: INT/TRAP[%d] with unimplemented handler'' @ [CHR 0x0A])
                               (sint (irq_no r))] \<rparr>)"
    by (simp add: int_handler_other)
  then show "\<exists>s'. int_handler P inp r s = Some s' \<and>
            emitted s s' = [Lprintf (''Error: INT/TRAP[%d] with unimplemented handler'' @ [CHR 0x0A])
                              (sint (irq_no r))] \<and>
            length (log_lines (emitted s s')) = 1 \<and> port_writes (emitted s s') = [] \<and>
            Outb (INT_CTL_PORT P) (INT_ACK_CURRENT P) \<notin> set (emitted s s') \<and>
            timer_ticks s' = timer_ticks s \<and> buf s' = buf s \<and> head s' = head s \<and>
            tail s' = tail s \<and> buf_sz s' = buf_sz s \<and> s' = s \<lparr> io := io s' \<rparr>"
    by (simp add: emitted_def log_lines_def port_writes_def is_outb_def)
next
  assume t: "irq_no r = IRQ_TIMER"
  show "\<exists>s'. int_handler P inp r s = Some s' \<and>
            emitted s s' =
              (case timer_callback s of None \<Rightarrow> []
               | Some f \<Rightarrow> [Call_tickback (timer_ticks s + 1)]) @
              [Outb (INT_CTL_PORT P) (INT_ACK_CURRENT P)] \<and>
            port_writes (emitted s s') = [Outb (INT_CTL_PORT P) (INT_ACK_CURRENT P)]"
    by (cases "timer_callback s")
       (simp_all add: int_handler_timer [OF t] timer_handler_state outb_def emitted_def
          port_writes_def is_outb_def)
next
  assume "irq_no r = IRQ_KBD \<and> buf_bounds s"
  then obtain s' where
    "int_handler P inp r s = Some s'"
    "io s' = io s @ [Inb (KEYBOARD_PORT P), Outb (INT_CTL_PORT P) (INT_ACK_CURRENT P)]"
    using int_handler_kbd [of r s P inp] by blast
  then show "\<exists>s'. int_handler P inp r s = Some s' \<and>
            emitted s s' = [Inb (KEYBOARD_PORT P), Outb (INT_CTL_PORT P) (INT_ACK_CURRENT P)] \<and>
            port_writes (emitted s s') = [Outb (INT_CTL_PORT P) (INT_ACK_CURRENT P)]"
    by (simp add: emitted_def port_writes_def is_outb_def)
qed

theorem int_handler_dispatch_witness:
  "irq_no (regs_of 0x30) \<noteq> IRQ_TIMER \<and> irq_no (regs_of 0x30) \<noteq> IRQ_KBD \<and>
   irq_no (regs_of 0x20) = IRQ_TIMER \<and> irq_no (regs_of 0x21) = IRQ_KBD \<and>
   buf_bounds kernel_ticking \<and>
   (\<exists>s'. int_handler pc (\<lambda>_. 0x1E) (regs_of 0x30) kernel_ticking = Some s' \<and>
         emitted kernel_ticking s' =
           [Lprintf (''Error: INT/TRAP[%d] with unimplemented handler'' @ [CHR 0x0A]) 48] \<and>
         timer_ticks s' = timer_ticks kernel_ticking \<and> buf_sz s' = buf_sz kernel_ticking) \<and>
   (\<exists>s'. int_handler pc (\<lambda>_. 0x1E) (regs_of 0x20) kernel_ticking = Some s' \<and>
         port_writes (emitted kernel_ticking s') = [Outb 0x20 0x20]) \<and>
   (\<exists>s'. int_handler pc (\<lambda>_. 0x1E) (regs_of 0x21) kernel_ticking = Some s' \<and>
         port_writes (emitted kernel_ticking s') = [Outb 0x20 0x20])"
proof -
  have h: "irq_no (regs_of 0x30) \<noteq> IRQ_TIMER \<and> irq_no (regs_of 0x30) \<noteq> IRQ_KBD"
      "irq_no (regs_of 0x20) = IRQ_TIMER" "irq_no (regs_of 0x21) = IRQ_KBD"
    by (simp_all add: regs_of_def IRQ_TIMER_def IRQ_KBD_def)
  have b: "buf_bounds kernel_ticking"
    by (simp add: kernel_ticking_def kernel_init_def buf_bounds_def MAX_BUF_SZ_def)
  have v: "INT_CTL_PORT pc = 0x20" "INT_ACK_CURRENT pc = 0x20" "sint (irq_no (regs_of 0x30)) = 48"
    by (simp_all add: pc_def regs_of_def)
  from int_handler_dispatch [of "regs_of 0x30" pc "\<lambda>_. 0x1E" kernel_ticking]
       int_handler_dispatch [of "regs_of 0x20" pc "\<lambda>_. 0x1E" kernel_ticking]
       int_handler_dispatch [of "regs_of 0x21" pc "\<lambda>_. 0x1E" kernel_ticking]
       h b
  show ?thesis
    unfolding v by blast
qed

section \<open>Reading a character\<close>

text \<open>
  C2.  The claim is that \<open>readchar\<close> on an empty buffer returns -1, pops nothing and
  feeds nothing to the decoder.  \<open>readchar\<close> does not test for emptiness: \<open>readbuf\<close>
  returns 0 for an empty buffer and \<open>readchar\<close> hands that 0 to \<open>process_scancode\<close> like
  a byte from the keyboard (\<open>readchar_empty\<close>).  On the initial kernel, with the decoder
  that records what it is given, the buffer is untouched and the result is -1, but the
  decoder has received the scancode 0.
\<close>

theorem readchar_empty_feeds_zero:
  "buf_sz (kernel_init () [] :: (unit, int list) kernel) = 0 \<and>
   decoder (kernel_init () [] :: (unit, int list) kernel) = [] \<and>
   readchar kh_recorder (kernel_init () []) =
     Some (- 1, (kernel_init () []) \<lparr> decoder := [0] \<rparr>)"
proof -
  have e: "buf_sz (kernel_init () [] :: (unit, int list) kernel) \<le> 0"
    by (simp add: kernel_init_def)
  show ?thesis
    unfolding readchar_empty [OF e] by (simp add: kh_recorder_def kernel_init_def)
qed

end
